theory Spec2Isabelle
  imports Complex_Main "HOL-Library.Sublist"
begin

section \<open>The Ask-AI prompt component (AskAI.vue)\<close>

text \<open>
  A shallow embedding of the script part of
  \<^verbatim>\<open>packages/editor-ui/src/components/CodeNodeEditor/AskAI/AskAI.vue\<close>.
  Reactive cells (\<^verbatim>\<open>ref\<close>) are fields of a state record, computed properties are
  functions of that state and of the stores they read, emitted events, toasts,
  telemetry calls and timers are logs in the state, and a JavaScript exception is a
  value returned next to the state it leaves behind.

  JavaScript values: \<^verbatim>\<open>undefined\<close> is \<open>None\<close>; a string is falsy exactly when it is
  empty, a number exactly when it is \<open>0\<close>, \<^verbatim>\<open>undefined\<close> always. Status codes are
  \<open>int\<close>. Timestamps and progress are finite floating-point numbers: real numbers,
  on which every arithmetic operation returns its exact result rounded. The rounding
  is a parameter (\<open>roundNumber\<close>), so nothing proved below depends on arithmetic
  being exact; comparisons, \<^verbatim>\<open>Math.min\<close> and \<^verbatim>\<open>Math.floor\<close> do not round.
\<close>

subsection \<open>Error values and their status\<close>

datatype js_exception = TypeError

datatype http_response = Response (status: "int option")

text \<open>
  What the \<^verbatim>\<open>catch\<close> clause of \<^verbatim>\<open>onSubmit\<close> can receive: \<^verbatim>\<open>null\<close> or
  \<^verbatim>\<open>undefined\<close>, or a value with an optional \<^verbatim>\<open>httpStatusCode\<close> property and an
  optional \<^verbatim>\<open>response\<close> property (a primitive has neither).
\<close>

datatype error_value =
  Nullish
  | ErrorObject (httpStatusCode: "int option") (response: "http_response option")

definition truthy :: "int option \<Rightarrow> bool" where
  "truthy v = (case v of None \<Rightarrow> False | Some n \<Rightarrow> n \<noteq> 0)"

text \<open>\<^verbatim>\<open>error.httpStatusCode\<close>: a property read, which throws on \<^verbatim>\<open>null\<close>/\<^verbatim>\<open>undefined\<close>.\<close>

definition read_httpStatusCode :: "error_value \<Rightarrow> js_exception + int option" where
  "read_httpStatusCode e =
     (case e of Nullish \<Rightarrow> Inl TypeError | ErrorObject h r \<Rightarrow> Inr h)"

text \<open>
  \<^verbatim>\<open>error?.response.status\<close>: the optional chain short-circuits only when \<^verbatim>\<open>error\<close>
  itself is nullish; otherwise \<^verbatim>\<open>.status\<close> is read from whatever \<^verbatim>\<open>error.response\<close>
  is, and reading a property of \<^verbatim>\<open>undefined\<close> throws.
\<close>

definition read_response_status :: "error_value \<Rightarrow> js_exception + int option" where
  "read_response_status e =
     (case e of
        Nullish \<Rightarrow> Inr None
      | ErrorObject h r \<Rightarrow>
          (case r of None \<Rightarrow> Inl TypeError | Some resp \<Rightarrow> Inr (status resp)))"

text \<open>\<^verbatim>\<open>error.httpStatusCode || error?.response.status\<close>, left operand first.\<close>

definition errorStatus :: "error_value \<Rightarrow> js_exception + int option" where
  "errorStatus e =
     (case read_httpStatusCode e of
        Inl x \<Rightarrow> Inl x
      | Inr h \<Rightarrow> if truthy h then Inr h else read_response_status e)"

subsection \<open>Error classification\<close>

text \<open>
  \<^verbatim>\<open>i18n.baseText\<close> is the parameter \<open>txt\<close>: the table of texts is not part of the component.
  The object literal \<^verbatim>\<open>errorMessages\<close> is an association list; indexing it with
  \<^verbatim>\<open>undefined\<close> finds nothing; \<^verbatim>\<open>||\<close> falls through on \<^verbatim>\<open>undefined\<close> and on the
  empty string.
\<close>

definition errorMessages :: "(string \<Rightarrow> string) \<Rightarrow> (int \<times> string) list" where
  "errorMessages txt =
     [(400, txt ''codeNodeEditor.askAi.generationFailedUnknown''),
      (413, txt ''codeNodeEditor.askAi.generationFailedTooLarge''),
      (429, txt ''codeNodeEditor.askAi.generationFailedRate''),
      (500, txt ''codeNodeEditor.askAi.generationFailedUnknown'')]"

definition getErrorMessageByStatusCode :: "(string \<Rightarrow> string) \<Rightarrow> int option \<Rightarrow> string" where
  "getErrorMessageByStatusCode txt statusCode =
     (case (case statusCode of None \<Rightarrow> None | Some n \<Rightarrow> map_of (errorMessages txt) n) of
        None \<Rightarrow> txt ''codeNodeEditor.askAi.generationFailedUnknown''
      | Some m \<Rightarrow>
          if m \<noteq> [] then m else txt ''codeNodeEditor.askAi.generationFailedUnknown'')"

text \<open>
  The argument expression of both calls in the \<^verbatim>\<open>catch\<close> clause:
  \<^verbatim>\<open>getErrorMessageByStatusCode(error.httpStatusCode || error?.response.status)\<close>.
\<close>

definition classifyError :: "(string \<Rightarrow> string) \<Rightarrow> error_value \<Rightarrow> js_exception + string" where
  "classifyError txt e =
     (case errorStatus e of
        Inl x \<Rightarrow> Inl x
      | Inr s \<Rightarrow> Inr (getErrorMessageByStatusCode txt s))"

subsection \<open>Nodes, schemas, stores\<close>

text \<open>
  Of a node (\<^verbatim>\<open>INodeUi\<close>) the component reads the name and \<^verbatim>\<open>parameters.mode\<close>; of
  an entry of \<^verbatim>\<open>getParentNodesByDepth\<close> (\<^verbatim>\<open>IConnectedNode\<close>) the name. Both record
  types extend the one-field record of named things, so \<open>name\<close> reads either.
\<close>

record named =
  name :: string

record node = named +
  mode :: "string option"

record connected_node = named +
  indicies :: "nat list"
  depth :: nat

text \<open>
  A \<^verbatim>\<open>Schema\<close> is \<^verbatim>\<open>{ type, key?, value: string | Schema[], path }\<close>; the component
  only reads \<^verbatim>\<open>value.length\<close>.
\<close>

datatype schema =
  Schema (stype: string) (skey: "string option") (svalue: schema_value) (spath: string)
and schema_value =
  Primitive string
  | Children "schema list"

fun value_length :: "schema_value \<Rightarrow> nat" where
  "value_length (Primitive s) = length s"
| "value_length (Children cs) = length cs"

record workflow =
  getParentNodesByDepth :: "string \<Rightarrow> connected_node list"

text \<open>
  Everything the component reads and does not own: the two stores, the composables,
  the property \<^verbatim>\<open>hasChanges\<close>, the imported constants, the library function
  \<^verbatim>\<open>snakeCase\<close> and the rounding of the platform's number arithmetic. \<open>'i\<close> is the
  type of an execution item (\<^verbatim>\<open>INodeExecutionData\<close>), \<open>'j\<close> of its JSON form.
\<close>

record ('i, 'j) env =
  activeNode :: "node option"
  ndvInputData :: "'i list option"
  getCurrentWorkflow :: "workflow option"
  getNodeByName :: "string \<Rightarrow> node option"
  getInputDataWithPinned :: "node \<Rightarrow> 'i list"
  executionDataToJson :: "'i list \<Rightarrow> 'j list"
  getSchemaForExecutionData :: "'j list \<Rightarrow> bool \<Rightarrow> schema"
  baseText :: "string \<Rightarrow> string"
  snakeCase :: "string \<Rightarrow> string"
  hasChanges :: bool
  versionCli :: string
  getVariant :: "string \<Rightarrow> string option"
  ASK_AI_EXPERIMENT_name :: string
  ASK_AI_EXPERIMENT_gpt4 :: string
  ASK_AI_MIN_PROMPT_LENGTH :: nat
  ASK_AI_MAX_PROMPT_LENGTH :: nat
  ASK_AI_LOADING_DURATION_MS :: real
  roundNumber :: "real \<Rightarrow> real"

subsection \<open>Component state and effects\<close>

datatype event = Submit string | ReplaceCode string | StartedLoading | FinishedLoading

record toast =
  ttype :: string
  title :: string
  message :: "string option"

datatype telemetry =
  GenerationClicked string
  | GenerationFinished (t_prompt: string) (t_code: string) (t_tokensCount: "int option")
      (t_hasErrors: bool) (t_error: string)

record schema_entry =
  nodeName :: string
  schema :: schema

record request =
  question :: string
  context_schema :: "schema_entry list"
  context_inputSchema :: "schema_entry option"
  model :: string
  n8nVersion :: string

text \<open>The only timer callback of the component: \<^verbatim>\<open>() => { isLoading.value = false }\<close>.\<close>

datatype callback = SetIsLoadingFalse

text \<open>The variables closed over by \<^verbatim>\<open>step\<close> in \<^verbatim>\<open>triggerLoadingChange\<close>.\<close>

record anim =
  start :: "real option"
  lastPhraseChange :: real

text \<open>
  The reactive cells, then the logs of what the component did: events emitted,
  toasts shown, telemetry calls, timers set (delay in ms and callback), requests sent,
  and the closure of the frame callback waiting in \<^verbatim>\<open>requestAnimationFrame\<close>, if any.
\<close>

record state =
  loadingPhraseIndex :: nat
  loaderProgress :: real
  isLoading :: bool
  prompt :: string
  parentNodes :: "node list"
  emitted :: "event list"
  toasts :: "toast list"
  tracked :: "telemetry list"
  timeouts :: "(nat \<times> callback) list"
  requests :: "request list"
  pendingFrame :: "anim option"

definition initial_state :: state where
  "initial_state =
     \<lparr>loadingPhraseIndex = 0, loaderProgress = 0, isLoading = False, prompt = [],
      parentNodes = [], emitted = [], toasts = [], tracked = [], timeouts = [],
      requests = [], pendingFrame = None\<rparr>"

subsection \<open>Computed properties\<close>

definition hasExecutionData :: "('i, 'j) env \<Rightarrow> bool" where
  "hasExecutionData e =
     (length (case ndvInputData e of None \<Rightarrow> [] | Some items \<Rightarrow> items) > 0)"

definition isEachItemMode :: "('i, 'j) env \<Rightarrow> bool" where
  "isEachItemMode e =
     (case activeNode e of
        None \<Rightarrow> False
      | Some n \<Rightarrow> mode n = Some ''runOnceForEachItem'')"

definition isSubmitEnabled :: "('i, 'j) env \<Rightarrow> state \<Rightarrow> bool" where
  "isSubmitEnabled e st =
     (\<not> isEachItemMode e \<and>
      length (prompt st) \<ge> ASK_AI_MIN_PROMPT_LENGTH e \<and>
      hasExecutionData e)"

subsection \<open>Parent nodes\<close>

text \<open>\<^verbatim>\<open>Array.prototype.findIndex\<close>: the first index whose element passes, or \<open>-1\<close>.\<close>

fun findIndex :: "('a \<Rightarrow> bool) \<Rightarrow> 'a list \<Rightarrow> int" where
  "findIndex P [] = - 1"
| "findIndex P (x # xs) =
     (if P x then 0
      else (let r = findIndex P xs in if r = - 1 then - 1 else r + 1))"

text \<open>
  \<^verbatim>\<open>Array.prototype.filter\<close> with the callback's index argument; \<open>i\<close> is the index
  of the head in the whole array.
\<close>

fun filter_from :: "nat \<Rightarrow> ('a \<Rightarrow> nat \<Rightarrow> bool) \<Rightarrow> 'a list \<Rightarrow> 'a list" where
  "filter_from i P [] = []"
| "filter_from i P (x # xs) =
     (if P x i then x # filter_from (Suc i) P xs else filter_from (Suc i) P xs)"

definition filter_indexed :: "('a \<Rightarrow> nat \<Rightarrow> bool) \<Rightarrow> 'a list \<Rightarrow> 'a list" where
  "filter_indexed P xs = filter_from 0 P xs"

text \<open>
  The first \<^verbatim>\<open>filter\<close> of \<^verbatim>\<open>getParentNodes\<close>: not the active node, and at the index
  where its name first occurs in the array.
\<close>

definition keptAncestors :: "string \<Rightarrow> connected_node list \<Rightarrow> connected_node list" where
  "keptAncestors active nodes =
     filter_indexed
       (\<lambda>nd i. name nd \<noteq> active \<and> findIndex (\<lambda>m. name m = name nd) nodes = int i)
       nodes"

text \<open>
  \<^verbatim>\<open>.map((n) => getNodeByName(n.name)).filter((n) => n !== null)\<close>: the nodes that
  the store resolves, in order.
\<close>

fun resolved :: "'a option list \<Rightarrow> 'a list" where
  "resolved [] = []"
| "resolved (None # xs) = resolved xs"
| "resolved (Some x # xs) = x # resolved xs"

definition getParentNodes :: "('i, 'j) env \<Rightarrow> node list" where
  "getParentNodes e =
     (case activeNode e of
        None \<Rightarrow> []
      | Some a \<Rightarrow>
          (case getCurrentWorkflow e of
             None \<Rightarrow> []
           | Some w \<Rightarrow>
               resolved
                 (map (\<lambda>n. getNodeByName e (name n))
                    (keptAncestors (name a) (getParentNodesByDepth w (name a))))))"

text \<open>
  The contract in the words of the specification, on names: duplicates removed, the
  first occurrence of a name kept, order preserved; \<open>seen\<close> are the names met so far.
\<close>

fun first_occurrences :: "string list \<Rightarrow> string list \<Rightarrow> string list" where
  "first_occurrences seen [] = []"
| "first_occurrences seen (x # xs) =
     (if x \<in> set seen then first_occurrences seen xs
      else x # first_occurrences (x # seen) xs)"

definition ancestor_names :: "string \<Rightarrow> string list \<Rightarrow> string list" where
  "ancestor_names active names = filter (\<lambda>n. n \<noteq> active) (first_occurrences [] names)"

subsection \<open>Schemas\<close>

record schemas =
  parentNodesNames :: "string list"
  inputSchema :: "schema_entry option"
  parentNodesSchemas :: "schema_entry list"

text \<open>\<^verbatim>\<open>Array.prototype.shift\<close>: the removed first element, if any, and what is left.\<close>

definition shift :: "'a list \<Rightarrow> 'a option \<times> 'a list" where
  "shift xs = (case xs of [] \<Rightarrow> (None, []) | x # rest \<Rightarrow> (Some x, rest))"

text \<open>
  The entry built for a parent node. \<^verbatim>\<open>node?.name || ''\<close> is the name itself: the only
  falsy name is the empty string.
\<close>

definition schemaEntry :: "('i, 'j) env \<Rightarrow> node \<Rightarrow> schema_entry" where
  "schemaEntry e nd =
     (let inputData = getInputDataWithPinned e nd in
      \<lparr>nodeName = (if name nd \<noteq> [] then name nd else []),
       schema = getSchemaForExecutionData e (executionDataToJson e inputData) True\<rparr>)"

definition nonEmptySchema :: "schema_entry \<Rightarrow> bool" where
  "nonEmptySchema en = (value_length (svalue (schema en)) > 0)"

definition getSchemas :: "('i, 'j) env \<Rightarrow> state \<Rightarrow> schemas" where
  "getSchemas e st =
     (let names = map name (parentNodes st);
          filtered = filter nonEmptySchema (map (schemaEntry e) (parentNodes st));
          (first, rest) = shift filtered
      in \<lparr>parentNodesNames = names, inputSchema = first, parentNodesSchemas = rest\<rparr>)"

subsection \<open>Effects\<close>

definition emit :: "event \<Rightarrow> state \<Rightarrow> state" where
  "emit ev st = st\<lparr>emitted := emitted st @ [ev]\<rparr>"

definition showMessage :: "toast \<Rightarrow> state \<Rightarrow> state" where
  "showMessage t st = st\<lparr>toasts := toasts st @ [t]\<rparr>"

definition trackAskAI :: "telemetry \<Rightarrow> state \<Rightarrow> state" where
  "trackAskAI t st = st\<lparr>tracked := tracked st @ [t]\<rparr>"

definition setTimeout :: "callback \<Rightarrow> nat \<Rightarrow> state \<Rightarrow> state" where
  "setTimeout cb delay st = st\<lparr>timeouts := timeouts st @ [(delay, cb)]\<rparr>"

fun run_callback :: "callback \<Rightarrow> state \<Rightarrow> state" where
  "run_callback SetIsLoadingFalse st = st\<lparr>isLoading := False\<rparr>"

text \<open>The timers set so far expire: their callbacks run, in the order they were set.\<close>

definition fire_timeouts :: "state \<Rightarrow> state" where
  "fire_timeouts st = fold (\<lambda>t. run_callback (snd t)) (timeouts st) (st\<lparr>timeouts := []\<rparr>)"

subsection \<open>The loading animation\<close>

text \<open>
  One call of the frame callback \<^verbatim>\<open>step(timestamp)\<close>, with the rounding \<open>rd\<close> of
  the arithmetic, the constant \<^verbatim>\<open>ASK_AI_LOADING_DURATION_MS\<close>, the value \<open>rnd\<close> that
  \<^verbatim>\<open>Math.random()\<close> returns if it is called, and the closure variables \<open>a\<close>. The
  result is the closure and the state after the call, and whether the call asked for
  another frame. \<^verbatim>\<open>!start\<close> holds for \<^verbatim>\<open>null\<close> and for \<open>0\<close>, \<^verbatim>\<open>!lastPhraseChange\<close>
  for \<open>0\<close>. Each \<^verbatim>\<open>-\<close>, \<^verbatim>\<open>+\<close>, \<^verbatim>\<open>/\<close> and \<^verbatim>\<open>*\<close> of the source is the exact operation
  followed by \<open>rd\<close>. The duration is a positive constant.
\<close>

definition step ::
  "(real \<Rightarrow> real) \<Rightarrow> real \<Rightarrow> real \<Rightarrow> real \<Rightarrow> anim \<Rightarrow> state \<Rightarrow> (anim \<times> state) \<times> bool" where
  "step rd duration timestamp rnd a st =
     (let loadingPhraseUpdateMs = (2000 :: real);
          loadingPhrasesCount = (8 :: real);
          start1 = (case start a of None \<Rightarrow> timestamp
                    | Some s \<Rightarrow> if s = 0 then timestamp else s);
          change = (lastPhraseChange a = 0 \<or>
                    rd (timestamp - lastPhraseChange a) \<ge> loadingPhraseUpdateMs);
          st1 = (if change
                 then st\<lparr>loadingPhraseIndex := nat \<lfloor>rd (rnd * loadingPhrasesCount)\<rfloor>\<rparr>
                 else st);
          last1 = (if change then timestamp else lastPhraseChange a);
          elapsed = rd (timestamp - start1);
          st2 = st1\<lparr>loaderProgress := min (rd (rd (elapsed / duration) * 100)) 100\<rparr>;
          a1 = \<lparr>start = Some start1, lastPhraseChange = last1\<rparr>
      in if \<not> isLoading st2 then ((a1, st2), False)
         else ((a1, st2),
               loaderProgress st2 < 100 \<or> rd (last1 + loadingPhraseUpdateMs) > timestamp))"

text \<open>
  \<^verbatim>\<open>window.requestAnimationFrame(step)\<close> leaves the callback waiting;
  \<^verbatim>\<open>triggerLoadingChange\<close> does so with a fresh closure (\<^verbatim>\<open>start = null\<close>,
  \<^verbatim>\<open>lastPhraseChange = 0\<close>).
\<close>

definition triggerLoadingChange :: "state \<Rightarrow> state" where
  "triggerLoadingChange st =
     st\<lparr>pendingFrame := Some \<lparr>start = None, lastPhraseChange = 0\<rparr>\<rparr>"

text \<open>
  An animation frame of the browser, with its timestamp and the random number at
  hand: the waiting callback, if there is one, is taken off and called, and waits
  again only if it asked to.
\<close>

definition frame :: "('i, 'j) env \<Rightarrow> real \<times> real \<Rightarrow> state \<Rightarrow> state" where
  "frame e f st =
     (case pendingFrame st of
        None \<Rightarrow> st
      | Some a \<Rightarrow>
          (let r = step (roundNumber e) (ASK_AI_LOADING_DURATION_MS e) (fst f) (snd f) a
                     (st\<lparr>pendingFrame := None\<rparr>);
               a1 = fst (fst r); st1 = snd (fst r)
           in if snd r then st1\<lparr>pendingFrame := Some a1\<rparr> else st1))"

fun run_frames :: "('i, 'j) env \<Rightarrow> (real \<times> real) list \<Rightarrow> state \<Rightarrow> state" where
  "run_frames e [] st = st"
| "run_frames e (f # fs) st = run_frames e fs (frame e f st)"

text \<open>
  The loop in the words of the specification. It tracks the time since it started
  (the first timestamp it saw; a recorded \<open>0\<close> counts as none). The phrase changes
  when none was shown yet or 2000 ms have passed since the last change. The displayed
  progress is \<open>min (elapsed / duration * 100) 100\<close>. A phrase change is pending when
  the next one, 2000 ms after the latest, lies after the frame's timestamp. The loop
  asks for another frame as long as \<^verbatim>\<open>isLoading\<close> holds and the progress has not
  reached 100 or a phrase change is pending. All in the arithmetic of the platform.
\<close>

definition loop_started :: "anim \<Rightarrow> real \<Rightarrow> real" where
  "loop_started a ts = (case start a of None \<Rightarrow> ts | Some s \<Rightarrow> if s = 0 then ts else s)"

definition phrase_changes :: "('i, 'j) env \<Rightarrow> anim \<Rightarrow> real \<Rightarrow> bool" where
  "phrase_changes e a ts =
     (lastPhraseChange a = 0 \<or> roundNumber e (ts - lastPhraseChange a) \<ge> 2000)"

definition phrase_changed_at :: "('i, 'j) env \<Rightarrow> anim \<Rightarrow> real \<Rightarrow> real" where
  "phrase_changed_at e a ts = (if phrase_changes e a ts then ts else lastPhraseChange a)"

definition displayed_progress :: "('i, 'j) env \<Rightarrow> anim \<Rightarrow> real \<Rightarrow> real" where
  "displayed_progress e a ts =
     min (roundNumber e
            (roundNumber e
               (roundNumber e (ts - loop_started a ts) / ASK_AI_LOADING_DURATION_MS e) * 100))
         100"

definition phrase_change_pending :: "('i, 'j) env \<Rightarrow> anim \<Rightarrow> real \<Rightarrow> bool" where
  "phrase_change_pending e a ts = (roundNumber e (phrase_changed_at e a ts + 2000) > ts)"

definition should_reschedule :: "('i, 'j) env \<Rightarrow> real \<Rightarrow> anim \<Rightarrow> state \<Rightarrow> bool" where
  "should_reschedule e ts a st =
     (isLoading st \<and> (displayed_progress e a ts < 100 \<or> phrase_change_pending e a ts))"

text \<open>
  The loop, once started, is still running after a sequence of frames: a callback
  waited at each of them and was to be rescheduled there.
\<close>

fun loop_runs :: "('i, 'j) env \<Rightarrow> (real \<times> real) list \<Rightarrow> state \<Rightarrow> bool" where
  "loop_runs e [] st = True"
| "loop_runs e (f # fs) st =
     (case pendingFrame st of
        None \<Rightarrow> False
      | Some a \<Rightarrow> should_reschedule e (fst f) a st \<and> loop_runs e fs (frame e f st))"

definition startLoading :: "state \<Rightarrow> state" where
  "startLoading st =
     triggerLoadingChange ((emit StartedLoading st)\<lparr>loaderProgress := 0, isLoading := True\<rparr>)"

definition stopLoading :: "state \<Rightarrow> state" where
  "stopLoading st =
     setTimeout SetIsLoadingFalse 200 (emit FinishedLoading (st\<lparr>loaderProgress := 100\<rparr>))"

subsection \<open>Submission\<close>

text \<open>
  What the outside answers during one call of \<^verbatim>\<open>onSubmit\<close>: the value the
  confirmation dialog resolves to (read only when \<^verbatim>\<open>hasChanges\<close>), the animation
  frames that pass while the request is awaited, and how
  \<^verbatim>\<open>generateCodeForPrompt\<close> settles: with \<^verbatim>\<open>{ code, usage }\<close> (of \<^verbatim>\<open>usage\<close> only
  \<^verbatim>\<open>usage?.total_tokens\<close> is read) or with a rejection.
\<close>

datatype api_outcome =
  Resolved string "int option"
  | Rejected error_value

record inputs =
  confirmModal :: string
  frames :: "(real \<times> real) list"
  outcome :: api_outcome

text \<open>
  The \<^verbatim>\<open>catch\<close> clause. The argument object of \<^verbatim>\<open>showMessage\<close> is built first, so an
  exception in the classification leaves before anything is shown; the same
  expression is evaluated again for the telemetry call.
\<close>

definition onSubmit_catch ::
  "('i, 'j) env \<Rightarrow> error_value \<Rightarrow> state \<Rightarrow> state \<times> js_exception option" where
  "onSubmit_catch e err st =
     (case classifyError (baseText e) err of
        Inl x \<Rightarrow> (st, Some x)
      | Inr msg \<Rightarrow>
          (let st1 = showMessage
                 \<lparr>ttype = ''error'',
                  title = baseText e ''codeNodeEditor.askAi.generationFailed'',
                  message = Some msg\<rparr> st
           in case classifyError (baseText e) err of
                Inl x \<Rightarrow> (st1, Some x)
              | Inr msg2 \<Rightarrow>
                  (stopLoading
                     (trackAskAI (GenerationFinished (prompt st1) [] (Some 0) True msg2) st1),
                   None)))"

text \<open>The statements of the \<^verbatim>\<open>try\<close> block after the awaited call has resolved.\<close>

definition onSubmit_resolved :: "('i, 'j) env \<Rightarrow> string \<Rightarrow> int option \<Rightarrow> state \<Rightarrow> state" where
  "onSubmit_resolved e code tokens st =
     (let st1 = stopLoading st;
          st2 = emit (ReplaceCode code) st1;
          st3 = showMessage
                  \<lparr>ttype = ''success'',
                   title = baseText e ''codeNodeEditor.askAi.generationCompleted'',
                   message = None\<rparr> st2
      in trackAskAI (GenerationFinished (prompt st3) code tokens False []) st3)"

text \<open>
  From \<^verbatim>\<open>startLoading()\<close> to the moment the awaited call settles: the loading state
  is entered, the request is built from the prompt and the schemas and sent, and
  animation frames pass while it is in flight.
\<close>

definition onSubmit_await :: "('i, 'j) env \<Rightarrow> inputs \<Rightarrow> schemas \<Rightarrow> state \<Rightarrow> state" where
  "onSubmit_await e inp schemas st =
     (let st2 = startLoading st;
          version = versionCli e;
          model =
            (if getVariant e (ASK_AI_EXPERIMENT_name e) = Some (ASK_AI_EXPERIMENT_gpt4 e)
             then ''gpt-4'' else ''gpt-3.5-turbo-16k'');
          st3 = st2\<lparr>requests := requests st2 @
                  [\<lparr>question = prompt st2,
                    context_schema = parentNodesSchemas schemas,
                    context_inputSchema = inputSchema schemas,
                    model = model,
                    n8nVersion = version\<rparr>]\<rparr>
      in run_frames e (frames inp) st3)"

definition onSubmit ::
  "('i, 'j) env \<Rightarrow> inputs \<Rightarrow> state \<Rightarrow> state \<times> js_exception option" where
  "onSubmit e inp st =
     (case activeNode e of
        None \<Rightarrow> (st, None)
      | Some a \<Rightarrow>
          (let schemas = getSchemas e st;
               st1 = trackAskAI (GenerationClicked (prompt st)) st
           in if hasChanges e \<and> confirmModal inp = ''cancel'' then (st1, None)
              else
                (let st4 = onSubmit_await e inp schemas st1
                 in case outcome inp of
                      Resolved code tokens \<Rightarrow> (onSubmit_resolved e code tokens st4, None)
                    | Rejected err \<Rightarrow> onSubmit_catch e err st4)))"

subsection \<open>Draft persistence\<close>

text \<open>
  Modelled from the spec: the scoped key-value storage behind \<^verbatim>\<open>useSessionStorage\<close>
  (a function of \<^verbatim>\<open>@vueuse/core\<close>, not under the sources): get and set a string by
  key; a key never written reads as the default given.
\<close>

type_synonym storage = "string \<rightharpoonup> string"

definition useSessionStorage_get :: "storage \<Rightarrow> string \<Rightarrow> string \<Rightarrow> string" where
  "useSessionStorage_get store key dflt = (case store key of None \<Rightarrow> dflt | Some v \<Rightarrow> v)"

definition useSessionStorage_set :: "storage \<Rightarrow> string \<Rightarrow> string \<Rightarrow> storage" where
  "useSessionStorage_set store key v = store(key \<mapsto> v)"

text \<open>
  \<^verbatim>\<open>getSessionStoragePrompt\<close> returns the cell of a key; the model returns the key.
  \<^verbatim>\<open>activeNode?.name ?? ''\<close> is the empty string when no node is active.
\<close>

definition getSessionStoragePrompt :: "('i, 'j) env \<Rightarrow> string" where
  "getSessionStoragePrompt e =
     (let codeNodeName = (case activeNode e of None \<Rightarrow> [] | Some n \<Rightarrow> name n);
          hashedCode = snakeCase e codeNodeName
      in ''ask_ai_prompt__'' @ hashedCode)"

definition onPromptInput :: "('i, 'j) env \<Rightarrow> string \<Rightarrow> storage \<Rightarrow> storage" where
  "onPromptInput e inputValue store =
     useSessionStorage_set store (getSessionStoragePrompt e) inputValue"

definition onMounted :: "('i, 'j) env \<Rightarrow> storage \<Rightarrow> state \<Rightarrow> state" where
  "onMounted e store st =
     st\<lparr>prompt := useSessionStorage_get store (getSessionStoragePrompt e) [],
        parentNodes := getParentNodes e\<rparr>"

subsection \<open>A sample environment\<close>

text \<open>
  Concrete collaborators on which the theorems below are exercised. The node
  \<open>My Node 1\<close> is open; its ancestors are \<open>B\<close> and \<open>C\<close>, which both descend from
  \<open>D\<close>, so the traversal lists \<open>D\<close> twice (and, here, the node itself once). An
  execution item is the list of its field names; \<open>C\<close> has no data. Texts are their
  own keys. The stand-in for \<^verbatim>\<open>snakeCase\<close> lowers ASCII letters and turns blanks into
  underscores. Arithmetic is exact, as that of doubles is on the numbers used with
  this environment (integers, quarters and halves).
\<close>

definition lower_ascii :: "char \<Rightarrow> char" where
  "lower_ascii c =
     (let n = (of_char c :: nat) in if 65 \<le> n \<and> n \<le> 90 then char_of (n + 32) else c)"

definition ascii_snake :: "string \<Rightarrow> string" where
  "ascii_snake s = map (\<lambda>c. if c = CHR '' '' then CHR ''_'' else lower_ascii c) s"

definition example_schema_of :: "string list list \<Rightarrow> bool \<Rightarrow> schema" where
  "example_schema_of js excludeValues =
     Schema ''object'' None
       (Children (map (\<lambda>k. Schema ''string'' (Some k) (Primitive []) k) (concat js))) []"

definition example_ancestors :: "connected_node list" where
  "example_ancestors =
     [\<lparr>name = ''B'', indicies = [0], depth = 1\<rparr>,
      \<lparr>name = ''C'', indicies = [0], depth = 1\<rparr>,
      \<lparr>name = ''D'', indicies = [0], depth = 2\<rparr>,
      \<lparr>name = ''D'', indicies = [0], depth = 2\<rparr>,
      \<lparr>name = ''My Node 1'', indicies = [], depth = 3\<rparr>]"

definition example_env :: "(string list, string list) env" where
  "example_env =
     \<lparr>activeNode = Some \<lparr>name = ''My Node 1'', mode = Some ''runOnceForAllItems''\<rparr>,
      ndvInputData = Some [[''id'', ''total'']],
      getCurrentWorkflow =
        Some \<lparr>getParentNodesByDepth =
                (\<lambda>n. if n = ''My Node 1'' then example_ancestors else [])\<rparr>,
      getNodeByName = (\<lambda>n. Some \<lparr>name = n, mode = None\<rparr>),
      getInputDataWithPinned =
        (\<lambda>nd. if name nd = ''B'' then [[''id'', ''total'']]
              else if name nd = ''D'' then [[''email'']] else []),
      executionDataToJson = (\<lambda>items. items),
      getSchemaForExecutionData = example_schema_of,
      baseText = (\<lambda>k. k),
      snakeCase = ascii_snake,
      hasChanges = True,
      versionCli = ''1.0.0'',
      getVariant = (\<lambda>n. None),
      ASK_AI_EXPERIMENT_name = ''011_ask_AI'',
      ASK_AI_EXPERIMENT_gpt4 = ''gpt4'',
      ASK_AI_MIN_PROMPT_LENGTH = 15,
      ASK_AI_MAX_PROMPT_LENGTH = 600,
      ASK_AI_LOADING_DURATION_MS = 12000,
      roundNumber = (\<lambda>x. x)\<rparr>"

definition example_state :: state where
  "example_state =
     initial_state
       \<lparr>prompt := ''add two numbers,'',
        parentNodes :=
          [\<lparr>name = ''C'', mode = None\<rparr>, \<lparr>name = ''B'', mode = None\<rparr>,
           \<lparr>name = ''D'', mode = None\<rparr>]\<rparr>"

text \<open>
  A variant in which the upstream node produced one item without fields, so that
  input data is present and the schema inferred for the only parent is empty; and a
  state whose prompt has 601 characters.
\<close>

definition example_empty_item_env :: "(string list, string list) env" where
  "example_empty_item_env =
     example_env\<lparr>ndvInputData := Some [[]], getInputDataWithPinned := (\<lambda>nd. [[]])\<rparr>"

definition example_overlong_state :: state where
  "example_overlong_state =
     initial_state
       \<lparr>prompt := replicate 601 (CHR ''x''),
        parentNodes := [\<lparr>name = ''C'', mode = None\<rparr>]\<rparr>"

text \<open>
  A rounding that is exact except between \<open>2^15\<close> and \<open>2^16\<close>, where it rounds to the
  nearest multiple of \<open>2^-37\<close>, ties to the even multiple, as doubles do there; and the
  sample environment with it. The two numbers are the doubles nearest to 30768.2 and
  32768.2: their difference is below 2000, and 2000 added to the first rounds to the
  second.
\<close>

definition round_half_even :: "real \<Rightarrow> real" where
  "round_half_even y =
     (let f = \<lfloor>y\<rfloor>; d = y - of_int f
      in if d < 1 / 2 then of_int f
         else if 1 / 2 < d then of_int (f + 1)
         else if even f then of_int f else of_int (f + 1))"

definition example_rounding :: "real \<Rightarrow> real" where
  "example_rounding x =
     (if 32768 \<le> x \<and> x < 65536
      then round_half_even (x * 137438953472) / 137438953472 else x)"

definition example_rounding_env :: "(string list, string list) env" where
  "example_rounding_env = example_env\<lparr>roundNumber := example_rounding\<rparr>"

definition double_30768_2 :: real where
  "double_30768_2 = 8457498416434381 / 274877906944"

definition double_32768_2 :: real where
  "double_32768_2 = 2251813557580595 / 68719476736"

section \<open>Error classification: properties\<close>

lemma getErrorMessageByStatusCode_other:
  "n \<noteq> 400 \<Longrightarrow> n \<noteq> 413 \<Longrightarrow> n \<noteq> 429 \<Longrightarrow> n \<noteq> 500 \<Longrightarrow>
   getErrorMessageByStatusCode txt (Some n) =
     txt ''codeNodeEditor.askAi.generationFailedUnknown''"
  by (simp add: getErrorMessageByStatusCode_def errorMessages_def)

lemma getErrorMessageByStatusCode_generic:
  "getErrorMessageByStatusCode txt (Some 400) =
     txt ''codeNodeEditor.askAi.generationFailedUnknown''"
  "getErrorMessageByStatusCode txt (Some 500) =
     txt ''codeNodeEditor.askAi.generationFailedUnknown''"
  "getErrorMessageByStatusCode txt None =
     txt ''codeNodeEditor.askAi.generationFailedUnknown''"
  by (simp_all add: getErrorMessageByStatusCode_def errorMessages_def)

lemma getErrorMessageByStatusCode_specific:
  "txt ''codeNodeEditor.askAi.generationFailedTooLarge'' \<noteq> [] \<Longrightarrow>
   getErrorMessageByStatusCode txt (Some 413) =
     txt ''codeNodeEditor.askAi.generationFailedTooLarge''"
  "txt ''codeNodeEditor.askAi.generationFailedRate'' \<noteq> [] \<Longrightarrow>
   getErrorMessageByStatusCode txt (Some 429) =
     txt ''codeNodeEditor.askAi.generationFailedRate''"
  by (simp_all add: getErrorMessageByStatusCode_def errorMessages_def)

text \<open>
  C4. Classification by status code: 413 gives the payload-too-large text, 429 the
  rate-limit text, and 400, 500, every other code and an absent status give the
  generic-failure text. The two specific texts are those of the text table, which
  has no empty entry for them (an empty text is falsy and would fall through to the
  generic one).
\<close>

theorem getErrorMessageByStatusCode_classes:
  assumes "txt ''codeNodeEditor.askAi.generationFailedTooLarge'' \<noteq> []"
    and "txt ''codeNodeEditor.askAi.generationFailedRate'' \<noteq> []"
  shows "getErrorMessageByStatusCode txt (Some 413) =
           txt ''codeNodeEditor.askAi.generationFailedTooLarge'' \<and>
         getErrorMessageByStatusCode txt (Some 429) =
           txt ''codeNodeEditor.askAi.generationFailedRate'' \<and>
         getErrorMessageByStatusCode txt (Some 400) =
           txt ''codeNodeEditor.askAi.generationFailedUnknown'' \<and>
         getErrorMessageByStatusCode txt (Some 500) =
           txt ''codeNodeEditor.askAi.generationFailedUnknown'' \<and>
         (\<forall>n. n \<notin> {400, 413, 429, 500} \<longrightarrow>
           getErrorMessageByStatusCode txt (Some n) =
             txt ''codeNodeEditor.askAi.generationFailedUnknown'') \<and>
         getErrorMessageByStatusCode txt None =
           txt ''codeNodeEditor.askAi.generationFailedUnknown''"
  using assms
  by (simp add: getErrorMessageByStatusCode_generic getErrorMessageByStatusCode_other
      getErrorMessageByStatusCode_specific)

theorem getErrorMessageByStatusCode_classes_witness:
  "getErrorMessageByStatusCode (\<lambda>k. k) (Some 413) =
     ''codeNodeEditor.askAi.generationFailedTooLarge'' \<and>
   getErrorMessageByStatusCode (\<lambda>k. k) (Some 429) =
     ''codeNodeEditor.askAi.generationFailedRate'' \<and>
   getErrorMessageByStatusCode (\<lambda>k. k) (Some 400) =
     ''codeNodeEditor.askAi.generationFailedUnknown'' \<and>
   getErrorMessageByStatusCode (\<lambda>k. k) (Some 500) =
     ''codeNodeEditor.askAi.generationFailedUnknown'' \<and>
   getErrorMessageByStatusCode (\<lambda>k. k) (Some 404) =
     ''codeNodeEditor.askAi.generationFailedUnknown'' \<and>
   getErrorMessageByStatusCode (\<lambda>k. k) None =
     ''codeNodeEditor.askAi.generationFailedUnknown''"
  using getErrorMessageByStatusCode_classes [of "\<lambda>k. k"] by simp

section \<open>Reading the status of an error value\<close>

lemma errorStatus_direct:
  "truthy (Some n) \<Longrightarrow> errorStatus (ErrorObject (Some n) r) = Inr (Some n)"
  by (simp add: errorStatus_def read_httpStatusCode_def)

lemma errorStatus_nested:
  "\<not> truthy h \<Longrightarrow> errorStatus (ErrorObject h (Some (Response s))) = Inr s"
  by (simp add: errorStatus_def read_httpStatusCode_def read_response_status_def)

lemma errorStatus_throws:
  "errorStatus err = Inl x \<longleftrightarrow>
     x = TypeError \<and>
     (case err of Nullish \<Rightarrow> True | ErrorObject h r \<Rightarrow> \<not> truthy h \<and> r = None)"
  by (cases x)
    (auto simp: errorStatus_def read_httpStatusCode_def read_response_status_def
      split: error_value.splits option.splits)

lemma classifyError_nested_absent_status:
  "classifyError txt (ErrorObject None (Some (Response None))) =
     Inr (txt ''codeNodeEditor.askAi.generationFailedUnknown'')"
  by (simp add: classifyError_def errorStatus_nested truthy_def
      getErrorMessageByStatusCode_generic)

text \<open>
  C1. The status is looked for in \<^verbatim>\<open>httpStatusCode\<close> and in \<^verbatim>\<open>response.status\<close>, and
  an error value with neither is to be classified as a generic failure without an
  exception. The code reads the nested status through \<^verbatim>\<open>error?.response.status\<close>,
  which guards \<^verbatim>\<open>error\<close> and not \<^verbatim>\<open>error.response\<close>: on an error value that has
  neither \<^verbatim>\<open>httpStatusCode\<close> nor \<^verbatim>\<open>response\<close> the read throws a \<^verbatim>\<open>TypeError\<close> and
  no message is produced. (With a \<^verbatim>\<open>response\<close> that lacks \<^verbatim>\<open>status\<close> the
  classification is the generic text, see \<open>classifyError_nested_absent_status\<close>.)
\<close>

theorem classifyError_both_absent_throws:
  "errorStatus (ErrorObject None None) = Inl TypeError \<and>
   classifyError txt (ErrorObject None None) = Inl TypeError"
  by (simp add: classifyError_def errorStatus_def read_httpStatusCode_def
      read_response_status_def truthy_def)

section \<open>Submit enablement: properties\<close>

lemma example_env_fields:
  "activeNode example_env = Some \<lparr>name = ''My Node 1'', mode = Some ''runOnceForAllItems''\<rparr>"
  "ndvInputData example_env = Some [[''id'', ''total'']]"
  "ASK_AI_MIN_PROMPT_LENGTH example_env = 15"
  "ASK_AI_MAX_PROMPT_LENGTH example_env = 600"
  "ASK_AI_LOADING_DURATION_MS example_env = 12000"
  "hasChanges example_env = True"
  "baseText example_env = (\<lambda>k. k)"
  "snakeCase example_env = ascii_snake"
  "executionDataToJson example_env = (\<lambda>items. items)"
  "getSchemaForExecutionData example_env = example_schema_of"
  "getNodeByName example_env = (\<lambda>n. Some \<lparr>name = n, mode = None\<rparr>)"
  by (simp_all add: example_env_def)

lemma example_state_fields:
  "prompt example_state = ''add two numbers,''"
  "parentNodes example_state =
     [\<lparr>name = ''C'', mode = None\<rparr>, \<lparr>name = ''B'', mode = None\<rparr>,
      \<lparr>name = ''D'', mode = None\<rparr>]"
  "emitted example_state = []" "toasts example_state = []" "timeouts example_state = []"
  "tracked example_state = []" "requests example_state = []"
  "isLoading example_state = False" "pendingFrame example_state = None"
  by (simp_all add: example_state_def initial_state_def)

text \<open>
  C2, as stated, fails: with input data present, an all-items node and a prompt of 601
  characters (the maximum being 600) submission is enabled, and it is enabled although
  no parent yields a non-empty schema, so that there is no primary input schema.
\<close>

theorem isSubmitEnabled_overlong_prompt_counterexample:
  "isSubmitEnabled example_empty_item_env example_overlong_state \<and>
   length (prompt example_overlong_state) > ASK_AI_MAX_PROMPT_LENGTH example_empty_item_env \<and>
   inputSchema (getSchemas example_empty_item_env example_overlong_state) = None"
  by (simp add: isSubmitEnabled_def isEachItemMode_def hasExecutionData_def
      getSchemas_def schemaEntry_def nonEmptySchema_def shift_def example_schema_of_def
      example_empty_item_env_def example_env_def example_overlong_state_def
      initial_state_def)

text \<open>
  C2, amended. Submission is enabled exactly when the active node is not in
  once-per-item mode, the prompt has at least \<^verbatim>\<open>ASK_AI_MIN_PROMPT_LENGTH\<close> characters
  and the input data of the node-data view is non-empty. So every prompt shorter than
  the minimum, and every once-per-item node, disables submission. No upper bound is
  checked here (the input field carries \<^verbatim>\<open>maxlength\<close>), nor the primary schema.
\<close>

theorem isSubmitEnabled_iff:
  "(isSubmitEnabled e st \<longleftrightarrow>
      \<not> isEachItemMode e \<and>
      ASK_AI_MIN_PROMPT_LENGTH e \<le> length (prompt st) \<and>
      (\<exists>items. ndvInputData e = Some items \<and> items \<noteq> [])) \<and>
   (length (prompt st) < ASK_AI_MIN_PROMPT_LENGTH e \<longrightarrow> \<not> isSubmitEnabled e st) \<and>
   ((\<exists>n. activeNode e = Some n \<and> mode n = Some ''runOnceForEachItem'') \<longrightarrow>
      \<not> isSubmitEnabled e st)"
  by (auto simp: isSubmitEnabled_def isEachItemMode_def hasExecutionData_def
      split: option.splits)

theorem isSubmitEnabled_iff_witness:
  "isSubmitEnabled example_env example_state \<and>
   \<not> isSubmitEnabled example_env (example_state\<lparr>prompt := ''too short''\<rparr>) \<and>
   \<not> isSubmitEnabled
       (example_env\<lparr>activeNode :=
          Some \<lparr>name = ''My Node 1'', mode = Some ''runOnceForEachItem''\<rparr>\<rparr>)
       example_state"
  using isSubmitEnabled_iff [of example_env example_state]
    isSubmitEnabled_iff [of example_env "example_state\<lparr>prompt := ''too short''\<rparr>"]
    isSubmitEnabled_iff [of "example_env\<lparr>activeNode :=
          Some \<lparr>name = ''My Node 1'', mode = Some ''runOnceForEachItem''\<rparr>\<rparr>" example_state]
  by (simp add: isEachItemMode_def example_env_fields example_state_fields)

section \<open>Ancestor extraction: properties\<close>

lemma findIndex_range: "- 1 \<le> findIndex P xs \<and> findIndex P xs < int (length xs)"
  by (induction xs) (auto simp: Let_def)

lemma findIndex_none: "findIndex P xs = - 1 \<longleftrightarrow> (\<forall>x \<in> set xs. \<not> P x)"
proof (induction xs)
  case Nil
  show ?case by simp
next
  case (Cons x xs)
  have "- 1 \<le> findIndex P xs" by (simp add: findIndex_range)
  with Cons show ?case by (auto simp: Let_def)
qed

lemma findIndex_append:
  "findIndex P (pre @ xs) =
     (if \<exists>y \<in> set pre. P y then findIndex P pre
      else if findIndex P xs = - 1 then - 1 else int (length pre) + findIndex P xs)"
proof (induction pre)
  case Nil
  show ?case by simp
next
  case (Cons p pre)
  have r: "- 1 \<le> findIndex P xs" by (simp add: findIndex_range)
  show ?case
  proof (cases "P p")
    case True
    then show ?thesis by simp
  next
    case False
    show ?thesis
    proof (cases "\<exists>y \<in> set pre. P y")
      case True
      with \<open>\<not> P p\<close> Cons show ?thesis by (simp add: Let_def)
    next
      case none: False
      show ?thesis
      proof (cases "findIndex P xs = - 1")
        case True
        with \<open>\<not> P p\<close> none Cons show ?thesis by (simp add: Let_def)
      next
        case False
        with r have "0 \<le> findIndex P xs" by arith
        with \<open>\<not> P p\<close> none False Cons show ?thesis by (simp add: Let_def)
      qed
    qed
  qed
qed

lemma findIndex_first:
  "findIndex P (pre @ x # xs) = int (length pre) \<longleftrightarrow> P x \<and> (\<forall>y \<in> set pre. \<not> P y)"
proof (cases "\<exists>y \<in> set pre. P y")
  case True
  then have "findIndex P (pre @ x # xs) = findIndex P pre"
    by (simp add: findIndex_append)
  moreover have "findIndex P pre < int (length pre)"
    by (simp add: findIndex_range)
  ultimately show ?thesis using True by auto
next
  case False
  have r: "- 1 \<le> findIndex P xs" by (simp add: findIndex_range)
  show ?thesis
  proof (cases "P x")
    case True
    with False show ?thesis by (simp add: findIndex_append)
  next
    case False
    with \<open>\<not> (\<exists>y \<in> set pre. P y)\<close> r show ?thesis
      by (auto simp: findIndex_append Let_def)
  qed
qed

lemma first_occurrences_seen:
  "set s1 = set s2 \<Longrightarrow> first_occurrences s1 xs = first_occurrences s2 xs"
proof (induction xs arbitrary: s1 s2)
  case Nil
  show ?case by simp
next
  case (Cons x xs)
  have m: "x \<in> set s1 \<longleftrightarrow> x \<in> set s2"
    using Cons.prems by simp
  have "set (x # s1) = set (x # s2)"
    using Cons.prems by simp
  then have "first_occurrences (x # s1) xs = first_occurrences (x # s2) xs"
    by (rule Cons.IH)
  moreover have "first_occurrences s1 xs = first_occurrences s2 xs"
    using Cons.prems by (rule Cons.IH)
  ultimately show ?case using m by simp
qed

lemma filter_from_first:
  "map name
     (filter_from (length pre)
        (\<lambda>nd i. name nd \<noteq> active \<and>
                findIndex (\<lambda>m. name m = name nd) (pre @ xs) = int i) xs) =
   filter (\<lambda>n. n \<noteq> active) (first_occurrences (map name pre) (map name xs))"
proof (induction xs arbitrary: pre)
  case Nil
  show ?case by simp
next
  case (Cons x xs)
  have "name x \<in> set (map name pre) \<longleftrightarrow> (\<exists>y \<in> set pre. name y = name x)"
    by (simp add: image_iff) metis
  then have hd: "findIndex (\<lambda>m. name m = name x) (pre @ x # xs) = int (length pre) \<longleftrightarrow>
      name x \<notin> set (map name pre)"
    by (simp only: findIndex_first) simp
  have tl: "map name
      (filter_from (Suc (length pre))
        (\<lambda>nd i. name nd \<noteq> active \<and>
                findIndex (\<lambda>m. name m = name nd) (pre @ x # xs) = int i) xs) =
      filter (\<lambda>n. n \<noteq> active) (first_occurrences (map name (pre @ [x])) (map name xs))"
    using Cons [of "pre @ [x]"] by simp
  have seen_new: "first_occurrences (map name (pre @ [x])) (map name xs) =
      first_occurrences (name x # map name pre) (map name xs)"
    by (rule first_occurrences_seen) auto
  have seen_old: "name x \<in> set (map name pre) \<Longrightarrow>
      first_occurrences (map name (pre @ [x])) (map name xs) =
      first_occurrences (map name pre) (map name xs)"
    by (rule first_occurrences_seen) auto
  show ?case
  proof (cases "name x \<in> set (map name pre)")
    case True
    with hd tl seen_old show ?thesis by simp
  next
    case False
    with hd tl seen_new show ?thesis by simp
  qed
qed

lemma keptAncestors_names:
  "map name (keptAncestors active nodes) = ancestor_names active (map name nodes)"
  using filter_from_first [of "[]" active nodes]
  by (simp add: keptAncestors_def filter_indexed_def ancestor_names_def)

lemma set_first_occurrences: "set (first_occurrences seen xs) = set xs - set seen"
  by (induction xs arbitrary: seen) auto

lemma distinct_first_occurrences: "distinct (first_occurrences seen xs)"
  by (induction xs arbitrary: seen) (auto simp: set_first_occurrences)

lemma subseq_first_occurrences: "subseq (first_occurrences seen xs) xs"
  by (induction xs arbitrary: seen) auto

lemma first_occurrences_filter:
  "first_occurrences seen (filter (\<lambda>y. y \<notin> set t) xs) = first_occurrences (t @ seen) xs"
proof (induction xs arbitrary: seen)
  case Nil
  show ?case by simp
next
  case (Cons x xs)
  have swap: "first_occurrences (t @ x # seen) xs = first_occurrences (x # t @ seen) xs"
    by (rule first_occurrences_seen) auto
  show ?case
    by (simp add: Cons swap)
qed

lemma remdups_snoc: "remdups (zs @ [x]) = remdups (filter (\<lambda>y. y \<noteq> x) zs) @ [x]"
  by (induction zs) auto

lemma first_occurrences_remdups: "first_occurrences [] xs = rev (remdups (rev xs))"
proof (induction xs rule: length_induct)
  case (1 xs)
  show ?case
  proof (cases xs)
    case Nil
    then show ?thesis by simp
  next
    case (Cons x ys)
    have "length (filter (\<lambda>y. y \<notin> set [x]) ys) < length xs"
      using Cons by (simp add: less_Suc_eq_le)
    with 1 have ih: "first_occurrences [] (filter (\<lambda>y. y \<notin> set [x]) ys) =
        rev (remdups (rev (filter (\<lambda>y. y \<notin> set [x]) ys)))"
      by blast
    have "first_occurrences [] xs = x # first_occurrences [x] ys"
      using Cons by simp
    also have "first_occurrences [x] ys = first_occurrences [] (filter (\<lambda>y. y \<notin> set [x]) ys)"
      using first_occurrences_filter [of "[]" "[x]" ys] by simp
    also note ih
    also have "x # rev (remdups (rev (filter (\<lambda>y. y \<notin> set [x]) ys))) =
        rev (remdups (rev xs))"
      using Cons by (simp add: remdups_snoc rev_filter)
    finally show ?thesis .
  qed
qed

lemma resolved_names:
  "\<forall>n \<in> set ns. \<exists>nd. g n = Some nd \<and> name nd = n \<Longrightarrow> map name (resolved (map g ns)) = ns"
  by (induction ns) auto

lemma getParentNodes_resolved:
  assumes "activeNode e = Some a" and "getCurrentWorkflow e = Some w"
  shows "getParentNodes e =
     resolved (map (getNodeByName e)
       (ancestor_names (name a) (map name (getParentNodesByDepth w (name a)))))"
proof -
  have "getParentNodes e =
      resolved (map (getNodeByName e)
        (map name (keptAncestors (name a) (getParentNodesByDepth w (name a)))))"
    using assms by (simp add: getParentNodes_def comp_def)
  then show ?thesis by (simp only: keptAncestors_names)
qed

text \<open>
  C6. With an active node and a workflow, \<^verbatim>\<open>getParentNodes\<close> returns the nodes the
  store resolves for the names listed by depth, the active node's name excluded and
  each name kept at its first occurrence only, in the order of the listing. These
  names are distinct, do not contain the active node's name, are all the other listed
  names, and form a subsequence of the listing; when the store resolves each of them
  to a node of that name, they are the names of the result.
\<close>

theorem getParentNodes_ancestors:
  assumes "activeNode e = Some a" and "getCurrentWorkflow e = Some w"
  shows "getParentNodes e =
           resolved (map (getNodeByName e)
             (ancestor_names (name a) (map name (getParentNodesByDepth w (name a))))) \<and>
         ((\<forall>n \<in> set (ancestor_names (name a) (map name (getParentNodesByDepth w (name a)))).
              \<exists>nd. getNodeByName e n = Some nd \<and> name nd = n) \<longrightarrow>
            map name (getParentNodes e) =
              ancestor_names (name a) (map name (getParentNodesByDepth w (name a)))) \<and>
         distinct (ancestor_names (name a) (map name (getParentNodesByDepth w (name a)))) \<and>
         name a \<notin> set (ancestor_names (name a) (map name (getParentNodesByDepth w (name a)))) \<and>
         set (ancestor_names (name a) (map name (getParentNodesByDepth w (name a)))) =
           set (map name (getParentNodesByDepth w (name a))) - {name a} \<and>
         subseq (ancestor_names (name a) (map name (getParentNodesByDepth w (name a))))
           (map name (getParentNodesByDepth w (name a))) \<and>
         ancestor_names (name a) (map name (getParentNodesByDepth w (name a))) =
           filter (\<lambda>n. n \<noteq> name a)
             (rev (remdups (rev (map name (getParentNodesByDepth w (name a))))))"
proof -
  let ?names = "map name (getParentNodesByDepth w (name a))"
  have r: "getParentNodes e = resolved (map (getNodeByName e) (ancestor_names (name a) ?names))"
    using assms by (rule getParentNodes_resolved)
  have n: "(\<forall>n \<in> set (ancestor_names (name a) ?names).
        \<exists>nd. getNodeByName e n = Some nd \<and> name nd = n) \<longrightarrow>
      map name (getParentNodes e) = ancestor_names (name a) ?names"
    unfolding r by (blast intro: resolved_names)
  have d: "distinct (ancestor_names (name a) ?names)"
    by (simp add: ancestor_names_def distinct_first_occurrences)
  have s: "set (ancestor_names (name a) ?names) = set ?names - {name a}"
    by (auto simp: ancestor_names_def set_first_occurrences)
  have q: "subseq (ancestor_names (name a) ?names) ?names"
    unfolding ancestor_names_def
    by (rule subseq_order.order_trans [OF subseq_filter_left subseq_first_occurrences])
  have k: "ancestor_names (name a) ?names =
      filter (\<lambda>n. n \<noteq> name a) (rev (remdups (rev ?names)))"
    by (simp only: ancestor_names_def first_occurrences_remdups)
  from r n d s q k show ?thesis by blast
qed

theorem getParentNodes_ancestors_witness:
  "map name (getParentNodesByDepth
      \<lparr>getParentNodesByDepth = (\<lambda>n. if n = ''My Node 1'' then example_ancestors else [])\<rparr>
      ''My Node 1'') = [''B'', ''C'', ''D'', ''D'', ''My Node 1''] \<and>
   getParentNodes example_env =
     [\<lparr>name = ''B'', mode = None\<rparr>, \<lparr>name = ''C'', mode = None\<rparr>,
      \<lparr>name = ''D'', mode = None\<rparr>]"
proof -
  let ?w = "\<lparr>getParentNodesByDepth = (\<lambda>n. if n = ''My Node 1'' then example_ancestors else [])\<rparr>"
  have a: "activeNode example_env =
      Some \<lparr>name = ''My Node 1'', mode = Some ''runOnceForAllItems''\<rparr>"
    by (simp add: example_env_def)
  have w: "getCurrentWorkflow example_env = Some ?w"
    by (simp add: example_env_def)
  have g: "getNodeByName example_env = (\<lambda>n. Some \<lparr>name = n, mode = None\<rparr>)"
    by (simp add: example_env_def)
  have "getParentNodes example_env =
      resolved (map (getNodeByName example_env)
        (ancestor_names (name \<lparr>name = ''My Node 1'', mode = Some ''runOnceForAllItems''\<rparr>)
           (map name (getParentNodesByDepth ?w
              (name \<lparr>name = ''My Node 1'', mode = Some ''runOnceForAllItems''\<rparr>)))))"
    using getParentNodes_ancestors [OF a w] by (rule conjunct1)
  then show ?thesis
    by (simp add: g example_ancestors_def ancestor_names_def)
qed

section \<open>Schema extraction: properties\<close>

lemma shift_filter:
  "fst (shift (filter P xs)) = find P xs"
  "snd (shift (filter P xs)) = filter P (drop 1 (dropWhile (\<lambda>x. \<not> P x) xs))"
  by (induction xs) (auto simp: shift_def)

lemma shift_parts:
  "(case fst (shift xs) of None \<Rightarrow> [] | Some x \<Rightarrow> [x]) @ snd (shift xs) = xs"
  by (cases xs) (simp_all add: shift_def)

lemma getSchemas_fields:
  "inputSchema (getSchemas e st) =
     fst (shift (filter nonEmptySchema (map (schemaEntry e) (parentNodes st))))"
  "parentNodesSchemas (getSchemas e st) =
     snd (shift (filter nonEmptySchema (map (schemaEntry e) (parentNodes st))))"
  "parentNodesNames (getSchemas e st) = map name (parentNodes st)"
  by (simp_all add: getSchemas_def Let_def split: prod.splits)

text \<open>
  C5. The entries built for the parent nodes, in order, carry the nodes' names. The
  primary input schema is the first entry with a non-empty schema, absent exactly
  when every schema is empty; the auxiliary schemas are the non-empty entries after
  it, in order; together they are the entries with the empty schemas filtered out.
\<close>

theorem getSchemas_primary_and_auxiliary:
  "inputSchema (getSchemas e st) =
     find nonEmptySchema (map (schemaEntry e) (parentNodes st)) \<and>
   parentNodesSchemas (getSchemas e st) =
     filter nonEmptySchema
       (drop 1 (dropWhile (\<lambda>x. \<not> nonEmptySchema x) (map (schemaEntry e) (parentNodes st)))) \<and>
   (case inputSchema (getSchemas e st) of None \<Rightarrow> [] | Some x \<Rightarrow> [x]) @
     parentNodesSchemas (getSchemas e st) =
     filter nonEmptySchema (map (schemaEntry e) (parentNodes st)) \<and>
   (inputSchema (getSchemas e st) = None \<longleftrightarrow>
     (\<forall>x \<in> set (map (schemaEntry e) (parentNodes st)). \<not> nonEmptySchema x)) \<and>
   (\<forall>x \<in> set (parentNodesSchemas (getSchemas e st)). nonEmptySchema x) \<and>
   map nodeName (map (schemaEntry e) (parentNodes st)) = map name (parentNodes st)"
proof -
  let ?es = "map (schemaEntry e) (parentNodes st)"
  have a: "inputSchema (getSchemas e st) = find nonEmptySchema ?es"
    by (simp only: getSchemas_fields shift_filter)
  have b: "parentNodesSchemas (getSchemas e st) =
      filter nonEmptySchema (drop 1 (dropWhile (\<lambda>x. \<not> nonEmptySchema x) ?es))"
    by (simp only: getSchemas_fields shift_filter)
  have c: "(case inputSchema (getSchemas e st) of None \<Rightarrow> [] | Some x \<Rightarrow> [x]) @
      parentNodesSchemas (getSchemas e st) = filter nonEmptySchema ?es"
    by (simp only: getSchemas_fields shift_parts)
  have d: "inputSchema (getSchemas e st) = None \<longleftrightarrow> (\<forall>x \<in> set ?es. \<not> nonEmptySchema x)"
    unfolding a by (simp only: find_None_iff) blast
  have f: "\<forall>x \<in> set (parentNodesSchemas (getSchemas e st)). nonEmptySchema x"
    unfolding b by simp
  have g: "map nodeName ?es = map name (parentNodes st)"
    by (simp add: schemaEntry_def)
  from a b c d f g show ?thesis by blast
qed

theorem getSchemas_primary_and_auxiliary_witness:
  "map nodeName (map (schemaEntry example_env) (parentNodes example_state)) =
     [''C'', ''B'', ''D''] \<and>
   map nonEmptySchema (map (schemaEntry example_env) (parentNodes example_state)) =
     [False, True, True] \<and>
   map_option nodeName (inputSchema (getSchemas example_env example_state)) = Some ''B'' \<and>
   map nodeName (parentNodesSchemas (getSchemas example_env example_state)) = [''D'']"
  using getSchemas_primary_and_auxiliary [of example_env example_state]
  by (simp add: example_state_fields schemaEntry_def nonEmptySchema_def
      example_schema_of_def example_env_def)

section \<open>The animation loop: properties\<close>

lemma step_result:
  "step (roundNumber e) (ASK_AI_LOADING_DURATION_MS e) ts r a st =
     ((\<lparr>start = Some (loop_started a ts), lastPhraseChange = phrase_changed_at e a ts\<rparr>,
       (if phrase_changes e a ts
        then st\<lparr>loadingPhraseIndex := nat \<lfloor>roundNumber e (r * 8)\<rfloor>\<rparr> else st)
         \<lparr>loaderProgress := displayed_progress e a ts\<rparr>),
      should_reschedule e ts a st)"
  by (simp add: step_def Let_def loop_started_def phrase_changes_def phrase_changed_at_def
      displayed_progress_def phrase_change_pending_def should_reschedule_def)

lemma step_not_loading: "\<not> isLoading st \<Longrightarrow> \<not> snd (step rd d ts r a st)"
  by (simp add: step_def Let_def)

lemma step_logs:
  "isLoading (snd (fst (step rd d ts r a st))) = isLoading st"
  "pendingFrame (snd (fst (step rd d ts r a st))) = pendingFrame st"
  "emitted (snd (fst (step rd d ts r a st))) = emitted st"
  "toasts (snd (fst (step rd d ts r a st))) = toasts st"
  "tracked (snd (fst (step rd d ts r a st))) = tracked st"
  "timeouts (snd (fst (step rd d ts r a st))) = timeouts st"
  "requests (snd (fst (step rd d ts r a st))) = requests st"
  "prompt (snd (fst (step rd d ts r a st))) = prompt st"
  "parentNodes (snd (fst (step rd d ts r a st))) = parentNodes st"
  by (simp_all add: step_def Let_def)

lemma should_reschedule_pendingFrame:
  "should_reschedule e ts a (st\<lparr>pendingFrame := p\<rparr>) = should_reschedule e ts a st"
  by (simp add: should_reschedule_def)

lemma frame_waiting:
  assumes "pendingFrame st = Some a"
  shows "frame e (ts, r) st =
     (if phrase_changes e a ts
      then st\<lparr>loadingPhraseIndex := nat \<lfloor>roundNumber e (r * 8)\<rfloor>\<rparr> else st)
       \<lparr>loaderProgress := displayed_progress e a ts,
        pendingFrame :=
          (if should_reschedule e ts a st
           then Some \<lparr>start = Some (loop_started a ts),
                       lastPhraseChange = phrase_changed_at e a ts\<rparr>
           else None)\<rparr>"
  using assms
  by (simp add: frame_def step_result should_reschedule_pendingFrame Let_def)

lemma frame_waiting_fields:
  assumes "pendingFrame st = Some a"
  shows "pendingFrame (frame e (ts, r) st) =
           (if should_reschedule e ts a st
            then Some \<lparr>start = Some (loop_started a ts),
                        lastPhraseChange = phrase_changed_at e a ts\<rparr>
            else None)"
    and "loaderProgress (frame e (ts, r) st) = displayed_progress e a ts"
  by (simp_all add: frame_waiting [OF assms])

lemma frame_idle: "pendingFrame st = None \<Longrightarrow> frame e f st = st"
  by (simp add: frame_def)

lemma run_frames_idle: "pendingFrame st = None \<Longrightarrow> run_frames e fs st = st"
  by (induction fs) (simp_all add: frame_idle)

lemma frame_stops: "\<not> isLoading st \<Longrightarrow> pendingFrame (frame e f st) = None"
  by (cases "pendingFrame st")
    (simp_all add: frame_def Let_def step_not_loading step_logs)

lemma run_frames_loop_runs:
  "pendingFrame (run_frames e fs st) \<noteq> None \<longleftrightarrow> pendingFrame st \<noteq> None \<and> loop_runs e fs st"
proof (induction fs arbitrary: st)
  case Nil
  show ?case by simp
next
  case (Cons f fs)
  obtain ts r where f: "f = (ts, r)" by (cases f)
  show ?case
  proof (cases "pendingFrame st")
    case None
    then show ?thesis by (simp add: run_frames_idle frame_idle)
  next
    case (Some a)
    have "pendingFrame (frame e f st) \<noteq> None \<longleftrightarrow> should_reschedule e ts a st"
      unfolding f by (simp add: frame_waiting_fields [OF Some])
    with Cons [of "frame e f st"] Some show ?thesis
      by (auto simp: f)
  qed
qed

lemma fold_callbacks_isLoading:
  "isLoading (fold (\<lambda>t. run_callback (snd t)) ts s) = (if ts = [] then isLoading s else False)"
proof (induction ts arbitrary: s)
  case Nil
  show ?case by simp
next
  case (Cons t ts)
  obtain d c where t: "t = (d, c)" by (cases t)
  show ?case
    by (cases c) (simp add: t Cons)
qed

lemma fire_timeouts_isLoading:
  "isLoading (fire_timeouts st) = (if timeouts st = [] then isLoading st else False)"
  by (simp add: fire_timeouts_def fold_callbacks_isLoading)

text \<open>
  With exact arithmetic the next phrase change always lies ahead after the phrase
  update, and the loop runs as long as \<^verbatim>\<open>isLoading\<close> holds.
\<close>

lemma exact_phrase_change_pending:
  "roundNumber e = (\<lambda>x. x) \<Longrightarrow> phrase_change_pending e a ts"
  by (simp add: phrase_change_pending_def phrase_changed_at_def phrase_changes_def)

lemma exact_should_reschedule:
  "roundNumber e = (\<lambda>x. x) \<Longrightarrow> should_reschedule e ts a st \<longleftrightarrow> isLoading st"
  by (simp add: should_reschedule_def exact_phrase_change_pending)

text \<open>
  With rounding it need not: 2000 ms are not yet over since the last phrase change,
  the sum of its time and 2000 rounds to the timestamp itself, and the progress is
  100. The callback then asks for no frame although \<^verbatim>\<open>isLoading\<close> holds.
\<close>

lemma example_rounding_sum:
  "double_32768_2 - double_30768_2 < 2000"
  "example_rounding (double_32768_2 - double_30768_2) = double_32768_2 - double_30768_2"
  "example_rounding (double_30768_2 + 2000) = double_32768_2"
  by (simp_all add: example_rounding_def round_half_even_def double_30768_2_def
      double_32768_2_def Let_def)

lemma rounded_loop_stops_while_loading:
  "isLoading (initial_state\<lparr>isLoading := True\<rparr>) \<and>
   displayed_progress example_rounding_env
     \<lparr>start = Some 768, lastPhraseChange = double_30768_2\<rparr> double_32768_2 = 100 \<and>
   \<not> phrase_changes example_rounding_env
     \<lparr>start = Some 768, lastPhraseChange = double_30768_2\<rparr> double_32768_2 \<and>
   \<not> should_reschedule example_rounding_env double_32768_2
     \<lparr>start = Some 768, lastPhraseChange = double_30768_2\<rparr>
     (initial_state\<lparr>isLoading := True\<rparr>)"
proof -
  let ?a = "\<lparr>start = Some 768, lastPhraseChange = double_30768_2\<rparr>"
  have r: "roundNumber example_rounding_env = example_rounding"
    and d: "ASK_AI_LOADING_DURATION_MS example_rounding_env = 12000"
    by (simp_all add: example_rounding_env_def example_env_def)
  have nz: "double_30768_2 \<noteq> 0"
    by (simp add: double_30768_2_def)
  have c: "\<not> phrase_changes example_rounding_env ?a double_32768_2"
    using example_rounding_sum(1) by (simp add: phrase_changes_def r nz example_rounding_sum(2))
  then have p: "\<not> phrase_change_pending example_rounding_env ?a double_32768_2"
    by (simp add: phrase_change_pending_def phrase_changed_at_def r example_rounding_sum(3))
  have g: "displayed_progress example_rounding_env ?a double_32768_2 = 100"
    by (simp add: displayed_progress_def loop_started_def r d example_rounding_def
        double_32768_2_def)
  from c p g show ?thesis
    by (simp add: should_reschedule_def initial_state_def)
qed

text \<open>
  C9. At a frame, the waiting callback displays the progress
  \<open>min (elapsed / duration * 100) 100\<close> and waits again exactly when \<^verbatim>\<open>isLoading\<close> holds
  and that progress is below 100 or a phrase change is pending (the latest change,
  this frame's included, plus 2000 ms lies after the timestamp); otherwise no
  callback waits. When \<^verbatim>\<open>isLoading\<close> is false, as it is once the timer set by
  \<^verbatim>\<open>stopLoading\<close> has expired, no callback waits after the frame and the frames that
  follow change nothing. Over any sequence of frames the loop is still running at
  the end exactly when it was running and was to be rescheduled at every frame.
\<close>

theorem animation_loop_reschedule:
  assumes "0 < ASK_AI_LOADING_DURATION_MS e"
  shows "(pendingFrame st = Some a \<longrightarrow>
            pendingFrame (frame e (ts, r) st) =
              (if isLoading st \<and>
                  (displayed_progress e a ts < 100 \<or> phrase_change_pending e a ts)
               then Some \<lparr>start = Some (loop_started a ts),
                           lastPhraseChange = phrase_changed_at e a ts\<rparr>
               else None) \<and>
            loaderProgress (frame e (ts, r) st) = displayed_progress e a ts) \<and>
         (snd (step (roundNumber e) (ASK_AI_LOADING_DURATION_MS e) ts r a st) \<longleftrightarrow>
            isLoading st \<and>
            (displayed_progress e a ts < 100 \<or> phrase_change_pending e a ts)) \<and>
         (\<not> isLoading st \<longrightarrow>
            pendingFrame (frame e (ts, r) st) = None \<and>
            run_frames e fs (frame e (ts, r) st) = frame e (ts, r) st) \<and>
         (timeouts st \<noteq> [] \<longrightarrow>
            pendingFrame (frame e (ts, r) (fire_timeouts st)) = None \<and>
            run_frames e fs (frame e (ts, r) (fire_timeouts st)) =
              frame e (ts, r) (fire_timeouts st)) \<and>
         (pendingFrame (run_frames e fs st) \<noteq> None \<longleftrightarrow>
            pendingFrame st \<noteq> None \<and> loop_runs e fs st)"
proof -
  have w: "pendingFrame st = Some a \<longrightarrow>
      pendingFrame (frame e (ts, r) st) =
        (if isLoading st \<and> (displayed_progress e a ts < 100 \<or> phrase_change_pending e a ts)
         then Some \<lparr>start = Some (loop_started a ts),
                     lastPhraseChange = phrase_changed_at e a ts\<rparr>
         else None) \<and>
      loaderProgress (frame e (ts, r) st) = displayed_progress e a ts"
    by (simp add: frame_waiting_fields should_reschedule_def)
  have s: "snd (step (roundNumber e) (ASK_AI_LOADING_DURATION_MS e) ts r a st) \<longleftrightarrow>
      isLoading st \<and> (displayed_progress e a ts < 100 \<or> phrase_change_pending e a ts)"
    by (simp add: step_result should_reschedule_def)
  have n: "\<not> isLoading st \<longrightarrow>
      pendingFrame (frame e (ts, r) st) = None \<and>
      run_frames e fs (frame e (ts, r) st) = frame e (ts, r) st"
    by (simp add: frame_stops run_frames_idle)
  have t: "timeouts st \<noteq> [] \<longrightarrow>
      pendingFrame (frame e (ts, r) (fire_timeouts st)) = None \<and>
      run_frames e fs (frame e (ts, r) (fire_timeouts st)) =
        frame e (ts, r) (fire_timeouts st)"
    by (simp add: frame_stops run_frames_idle fire_timeouts_isLoading)
  have l: "pendingFrame (run_frames e fs st) \<noteq> None \<longleftrightarrow>
      pendingFrame st \<noteq> None \<and> loop_runs e fs st"
    by (rule run_frames_loop_runs)
  from w s n t l show ?thesis by blast
qed

theorem animation_loop_reschedule_witness:
  "pendingFrame (frame example_env (16, 1 / 2) (startLoading initial_state)) =
     Some \<lparr>start = Some 16, lastPhraseChange = 16\<rparr> \<and>
   loaderProgress (frame example_env (16, 1 / 2) (startLoading initial_state)) = 0 \<and>
   pendingFrame (frame example_env (3016, 1 / 4)
     (frame example_env (16, 1 / 2) (startLoading initial_state))) =
     Some \<lparr>start = Some 16, lastPhraseChange = 3016\<rparr> \<and>
   loaderProgress (frame example_env (3016, 1 / 4)
     (frame example_env (16, 1 / 2) (startLoading initial_state))) = 25 \<and>
   pendingFrame (run_frames example_env [(16, 1 / 2), (3016, 1 / 4)]
     (startLoading initial_state)) \<noteq> None \<and>
   pendingFrame (frame example_env (3016, 1 / 4)
     (fire_timeouts (stopLoading (frame example_env (16, 1 / 2) (startLoading initial_state)))))
     = None \<and>
   run_frames example_env [(3032, 3 / 4), (3048, 0)]
     (frame example_env (3016, 1 / 4)
        (fire_timeouts (stopLoading
           (frame example_env (16, 1 / 2) (startLoading initial_state))))) =
     frame example_env (3016, 1 / 4)
       (fire_timeouts (stopLoading (frame example_env (16, 1 / 2) (startLoading initial_state)))) \<and>
   isLoading (initial_state\<lparr>isLoading := True,
     pendingFrame := Some \<lparr>start = Some 768, lastPhraseChange = double_30768_2\<rparr>\<rparr>) \<and>
   pendingFrame (frame example_rounding_env (double_32768_2, 1 / 2)
     (initial_state\<lparr>isLoading := True,
        pendingFrame := Some \<lparr>start = Some 768, lastPhraseChange = double_30768_2\<rparr>\<rparr>)) = None
   \<and>
   loaderProgress (frame example_rounding_env (double_32768_2, 1 / 2)
     (initial_state\<lparr>isLoading := True,
        pendingFrame := Some \<lparr>start = Some 768, lastPhraseChange = double_30768_2\<rparr>\<rparr>)) = 100"
proof -
  let ?a0 = "\<lparr>start = None, lastPhraseChange = 0\<rparr>"
  let ?a1 = "\<lparr>start = Some 16, lastPhraseChange = 16\<rparr>"
  let ?s0 = "startLoading initial_state"
  let ?s1 = "frame example_env (16, 1 / 2) ?s0"
  have d: "ASK_AI_LOADING_DURATION_MS example_env = 12000"
    and x: "roundNumber example_env = (\<lambda>x. x)"
    by (simp_all add: example_env_def)
  from d have p: "0 < ASK_AI_LOADING_DURATION_MS example_env"
    by simp
  have s0: "pendingFrame ?s0 = Some ?a0" "isLoading ?s0"
    by (simp_all add: startLoading_def triggerLoadingChange_def emit_def)
  have v0: "loop_started ?a0 16 = 16" "phrase_changed_at example_env ?a0 16 = 16"
    "displayed_progress example_env ?a0 16 = 0" "phrase_change_pending example_env ?a0 16"
    by (simp_all add: loop_started_def phrase_changed_at_def phrase_changes_def
        displayed_progress_def phrase_change_pending_def d x)
  have f1: "pendingFrame ?s1 = Some ?a1 \<and> loaderProgress ?s1 = 0"
    using animation_loop_reschedule [OF p, where st = ?s0 and a = ?a0 and ts = 16 and r = "1 / 2"]
      s0 by (simp add: v0)
  have l1: "isLoading ?s1"
    using s0 by (simp add: frame_waiting [OF s0(1)])
  have v1: "loop_started ?a1 3016 = 16" "phrase_changed_at example_env ?a1 3016 = 3016"
    "displayed_progress example_env ?a1 3016 = 25" "phrase_change_pending example_env ?a1 3016"
    by (simp_all add: loop_started_def phrase_changed_at_def phrase_changes_def
        displayed_progress_def phrase_change_pending_def d x)
  have f2: "pendingFrame (frame example_env (3016, 1 / 4) ?s1) =
      Some \<lparr>start = Some 16, lastPhraseChange = 3016\<rparr> \<and>
      loaderProgress (frame example_env (3016, 1 / 4) ?s1) = 25"
    using animation_loop_reschedule [OF p, where st = ?s1 and a = ?a1 and ts = 3016
        and r = "1 / 4"] f1 l1
    by (simp add: v1)
  have runs: "loop_runs example_env [(16, 1 / 2), (3016, 1 / 4)] ?s0"
    using s0 f1 l1 by (simp add: should_reschedule_def v0 v1)
  have f3: "pendingFrame (run_frames example_env [(16, 1 / 2), (3016, 1 / 4)] ?s0) \<noteq> None"
    using animation_loop_reschedule [OF p, where st = ?s0 and fs = "[(16, 1 / 2), (3016, 1 / 4)]"]
      s0 runs by simp
  have t: "timeouts (stopLoading ?s1) \<noteq> []"
    by (simp add: stopLoading_def setTimeout_def)
  have f4: "pendingFrame (frame example_env (3016, 1 / 4) (fire_timeouts (stopLoading ?s1))) = None \<and>
      run_frames example_env [(3032, 3 / 4), (3048, 0)]
        (frame example_env (3016, 1 / 4) (fire_timeouts (stopLoading ?s1))) =
      frame example_env (3016, 1 / 4) (fire_timeouts (stopLoading ?s1))"
    using animation_loop_reschedule [OF p, where st = "stopLoading ?s1" and ts = 3016
        and r = "1 / 4" and fs = "[(3032, 3 / 4), (3048, 0)]"] t
    by simp
  let ?ar = "\<lparr>start = Some 768, lastPhraseChange = double_30768_2\<rparr>"
  let ?sr = "initial_state\<lparr>isLoading := True, pendingFrame := Some ?ar\<rparr>"
  have pr: "0 < ASK_AI_LOADING_DURATION_MS example_rounding_env"
    by (simp add: example_rounding_env_def example_env_def)
  have sr: "pendingFrame ?sr = Some ?ar" "isLoading ?sr"
    by simp_all
  have vr: "displayed_progress example_rounding_env ?ar double_32768_2 = 100"
    "\<not> should_reschedule example_rounding_env double_32768_2 ?ar
        (initial_state\<lparr>isLoading := True\<rparr>)"
    using rounded_loop_stops_while_loading by simp_all
  then have "\<not> phrase_change_pending example_rounding_env ?ar double_32768_2"
    by (simp add: should_reschedule_def)
  with vr(1) have f5: "isLoading ?sr \<and>
      pendingFrame (frame example_rounding_env (double_32768_2, 1 / 2) ?sr) = None \<and>
      loaderProgress (frame example_rounding_env (double_32768_2, 1 / 2) ?sr) = 100"
    using animation_loop_reschedule [OF pr, where st = ?sr and a = ?ar and ts = double_32768_2
        and r = "1 / 2"] sr
    by simp
  from f1 f2 f3 f4 f5 show ?thesis by blast
qed

section \<open>Submission: properties\<close>

lemma frame_logs:
  "isLoading (frame e f st) = isLoading st"
  "emitted (frame e f st) = emitted st"
  "toasts (frame e f st) = toasts st"
  "tracked (frame e f st) = tracked st"
  "timeouts (frame e f st) = timeouts st"
  "requests (frame e f st) = requests st"
  "prompt (frame e f st) = prompt st"
  "parentNodes (frame e f st) = parentNodes st"
  by (cases "pendingFrame st"; simp add: frame_def Let_def step_logs)+

lemma run_frames_logs:
  "isLoading (run_frames e fs st) = isLoading st"
  "emitted (run_frames e fs st) = emitted st"
  "toasts (run_frames e fs st) = toasts st"
  "tracked (run_frames e fs st) = tracked st"
  "timeouts (run_frames e fs st) = timeouts st"
  "requests (run_frames e fs st) = requests st"
  "prompt (run_frames e fs st) = prompt st"
  "parentNodes (run_frames e fs st) = parentNodes st"
  by (induction fs arbitrary: st; simp add: frame_logs)+

lemma onSubmit_await_logs:
  "isLoading (onSubmit_await e inp sch st)"
  "emitted (onSubmit_await e inp sch st) = emitted st @ [StartedLoading]"
  "toasts (onSubmit_await e inp sch st) = toasts st"
  "tracked (onSubmit_await e inp sch st) = tracked st"
  "timeouts (onSubmit_await e inp sch st) = timeouts st"
  "prompt (onSubmit_await e inp sch st) = prompt st"
  "parentNodes (onSubmit_await e inp sch st) = parentNodes st"
  by (simp_all add: onSubmit_await_def Let_def run_frames_logs startLoading_def
      triggerLoadingChange_def emit_def)

lemma onSubmit_await_requests:
  "requests (onSubmit_await e inp sch st) =
     requests st @
       [\<lparr>question = prompt st,
         context_schema = parentNodesSchemas sch,
         context_inputSchema = inputSchema sch,
         model = (if getVariant e (ASK_AI_EXPERIMENT_name e) = Some (ASK_AI_EXPERIMENT_gpt4 e)
                  then ''gpt-4'' else ''gpt-3.5-turbo-16k''),
         n8nVersion = versionCli e\<rparr>]"
  by (simp add: onSubmit_await_def Let_def run_frames_logs startLoading_def
      triggerLoadingChange_def emit_def)

lemma stopLoading_fields:
  "loaderProgress (stopLoading st) = 100"
  "isLoading (stopLoading st) = isLoading st"
  "emitted (stopLoading st) = emitted st @ [FinishedLoading]"
  "timeouts (stopLoading st) = timeouts st @ [(200, SetIsLoadingFalse)]"
  "toasts (stopLoading st) = toasts st"
  "tracked (stopLoading st) = tracked st"
  "requests (stopLoading st) = requests st"
  "prompt (stopLoading st) = prompt st"
  by (simp_all add: stopLoading_def setTimeout_def emit_def)

lemma onSubmit_started:
  assumes "activeNode e = Some a" and "\<not> (hasChanges e \<and> confirmModal inp = ''cancel'')"
  shows "onSubmit e inp st =
     (case outcome inp of
        Resolved code tokens \<Rightarrow>
          (onSubmit_resolved e code tokens
             (onSubmit_await e inp (getSchemas e st)
                (trackAskAI (GenerationClicked (prompt st)) st)), None)
      | Rejected err \<Rightarrow>
          onSubmit_catch e err
            (onSubmit_await e inp (getSchemas e st)
               (trackAskAI (GenerationClicked (prompt st)) st)))"
  using assms by (auto simp: onSubmit_def Let_def)

lemma onSubmit_resolved_fields:
  "loaderProgress (onSubmit_resolved e code tokens st) = 100"
  "isLoading (onSubmit_resolved e code tokens st) = isLoading st"
  "emitted (onSubmit_resolved e code tokens st) =
     emitted st @ [FinishedLoading, ReplaceCode code]"
  "timeouts (onSubmit_resolved e code tokens st) = timeouts st @ [(200, SetIsLoadingFalse)]"
  "toasts (onSubmit_resolved e code tokens st) =
     toasts st @ [\<lparr>ttype = ''success'',
                   title = baseText e ''codeNodeEditor.askAi.generationCompleted'',
                   message = None\<rparr>]"
  "tracked (onSubmit_resolved e code tokens st) =
     tracked st @ [GenerationFinished (prompt st) code tokens False []]"
  by (simp_all add: onSubmit_resolved_def Let_def stopLoading_def setTimeout_def emit_def
      showMessage_def trackAskAI_def)

text \<open>
  C7. When a node is active, the confirmation (if asked) is not cancelled and the
  request resolves with a code string, \<^verbatim>\<open>onSubmit\<close> finishes without an exception;
  it has emitted \<^verbatim>\<open>startedLoading\<close>, \<^verbatim>\<open>finishedLoading\<close> and one
  \<^verbatim>\<open>replaceCode\<close> with exactly the returned code, set the progress to 100, set one
  timer of 200 ms whose callback makes \<^verbatim>\<open>isLoading\<close> false (it is still true until
  then), shown one success toast and recorded the two telemetry events. This holds
  whatever animation frames passed while the request was in flight.
\<close>

theorem onSubmit_success:
  assumes "activeNode e = Some a"
    and "\<not> (hasChanges e \<and> confirmModal inp = ''cancel'')"
    and "outcome inp = Resolved code tokens"
  shows "snd (onSubmit e inp st) = None \<and>
         emitted (fst (onSubmit e inp st)) =
           emitted st @ [StartedLoading, FinishedLoading, ReplaceCode code] \<and>
         loaderProgress (fst (onSubmit e inp st)) = 100 \<and>
         timeouts (fst (onSubmit e inp st)) = timeouts st @ [(200, SetIsLoadingFalse)] \<and>
         isLoading (fst (onSubmit e inp st)) \<and>
         \<not> isLoading (fire_timeouts (fst (onSubmit e inp st))) \<and>
         toasts (fst (onSubmit e inp st)) =
           toasts st @ [\<lparr>ttype = ''success'',
                         title = baseText e ''codeNodeEditor.askAi.generationCompleted'',
                         message = None\<rparr>] \<and>
         tracked (fst (onSubmit e inp st)) =
           tracked st @ [GenerationClicked (prompt st),
                         GenerationFinished (prompt st) code tokens False []]"
  using assms
  by (simp add: onSubmit_started onSubmit_resolved_fields onSubmit_await_logs
      fire_timeouts_isLoading trackAskAI_def)

theorem onSubmit_success_witness:
  "snd (onSubmit example_env
      \<lparr>confirmModal = ''confirm'', frames = [(0, 1 / 2), (16, 1 / 4)],
       outcome = Resolved ''return a+b'' (Some 42)\<rparr> example_state) = None \<and>
   emitted (fst (onSubmit example_env
      \<lparr>confirmModal = ''confirm'', frames = [(0, 1 / 2), (16, 1 / 4)],
       outcome = Resolved ''return a+b'' (Some 42)\<rparr> example_state)) =
     [StartedLoading, FinishedLoading, ReplaceCode ''return a+b''] \<and>
   loaderProgress (fst (onSubmit example_env
      \<lparr>confirmModal = ''confirm'', frames = [(0, 1 / 2), (16, 1 / 4)],
       outcome = Resolved ''return a+b'' (Some 42)\<rparr> example_state)) = 100 \<and>
   timeouts (fst (onSubmit example_env
      \<lparr>confirmModal = ''confirm'', frames = [(0, 1 / 2), (16, 1 / 4)],
       outcome = Resolved ''return a+b'' (Some 42)\<rparr> example_state)) =
     [(200, SetIsLoadingFalse)] \<and>
   \<not> isLoading (fire_timeouts (fst (onSubmit example_env
      \<lparr>confirmModal = ''confirm'', frames = [(0, 1 / 2), (16, 1 / 4)],
       outcome = Resolved ''return a+b'' (Some 42)\<rparr> example_state))) \<and>
   toasts (fst (onSubmit example_env
      \<lparr>confirmModal = ''confirm'', frames = [(0, 1 / 2), (16, 1 / 4)],
       outcome = Resolved ''return a+b'' (Some 42)\<rparr> example_state)) =
     [\<lparr>ttype = ''success'', title = ''codeNodeEditor.askAi.generationCompleted'',
       message = None\<rparr>]"
proof -
  let ?inp = "\<lparr>confirmModal = ''confirm'', frames = [(0, 1 / 2), (16, 1 / 4)],
       outcome = Resolved ''return a+b'' (Some 42)\<rparr>"
  have a: "activeNode example_env =
      Some \<lparr>name = ''My Node 1'', mode = Some ''runOnceForAllItems''\<rparr>"
    by (simp add: example_env_def)
  have c: "\<not> (hasChanges example_env \<and> confirmModal ?inp = ''cancel'')"
    by simp
  have o: "outcome ?inp = Resolved ''return a+b'' (Some 42)"
    by simp
  have t: "baseText example_env = (\<lambda>k. k)"
    by (simp add: example_env_def)
  have s: "emitted example_state = []" "timeouts example_state = []"
    "toasts example_state = []"
    by (simp_all add: example_state_def initial_state_def)
  from onSubmit_success [OF a c o, of example_state] show ?thesis
    by (simp add: t s)
qed

lemma onSubmit_catch_classified:
  assumes "classifyError (baseText e) err = Inr msg"
  shows "onSubmit_catch e err st =
     (stopLoading
        (trackAskAI (GenerationFinished (prompt st) [] (Some 0) True msg)
           (showMessage
              \<lparr>ttype = ''error'', title = baseText e ''codeNodeEditor.askAi.generationFailed'',
               message = Some msg\<rparr> st)),
      None)"
  using assms by (simp add: onSubmit_catch_def Let_def showMessage_def)

lemma onSubmit_catch_throws:
  assumes "classifyError (baseText e) err = Inl x"
  shows "onSubmit_catch e err st = (st, Some x)"
  using assms by (simp add: onSubmit_catch_def)

lemma onSubmit_failure_classified:
  assumes "activeNode e = Some a"
    and "\<not> (hasChanges e \<and> confirmModal inp = ''cancel'')"
    and "outcome inp = Rejected err"
    and "classifyError (baseText e) err = Inr msg"
  shows "snd (onSubmit e inp st) = None \<and>
         emitted (fst (onSubmit e inp st)) = emitted st @ [StartedLoading, FinishedLoading] \<and>
         toasts (fst (onSubmit e inp st)) =
           toasts st @ [\<lparr>ttype = ''error'',
                         title = baseText e ''codeNodeEditor.askAi.generationFailed'',
                         message = Some msg\<rparr>] \<and>
         loaderProgress (fst (onSubmit e inp st)) = 100 \<and>
         timeouts (fst (onSubmit e inp st)) = timeouts st @ [(200, SetIsLoadingFalse)] \<and>
         \<not> isLoading (fire_timeouts (fst (onSubmit e inp st)))"
  using assms
  by (simp add: onSubmit_started onSubmit_catch_classified stopLoading_fields
      onSubmit_await_logs fire_timeouts_isLoading trackAskAI_def showMessage_def)

lemma onSubmit_failure_unreadable:
  assumes "activeNode e = Some a"
    and "\<not> (hasChanges e \<and> confirmModal inp = ''cancel'')"
    and "outcome inp = Rejected err"
    and "classifyError (baseText e) err = Inl x"
  shows "snd (onSubmit e inp st) = Some x \<and>
         emitted (fst (onSubmit e inp st)) = emitted st @ [StartedLoading] \<and>
         toasts (fst (onSubmit e inp st)) = toasts st \<and>
         timeouts (fst (onSubmit e inp st)) = timeouts st \<and>
         isLoading (fst (onSubmit e inp st))"
  using assms
  by (simp add: onSubmit_started onSubmit_catch_throws onSubmit_await_logs trackAskAI_def)

text \<open>
  C3. A failed request is to end in one error toast, progress 100, the timer that
  resets \<^verbatim>\<open>isLoading\<close>, no \<^verbatim>\<open>replaceCode\<close> and no exception. For a rejection whose
  status can be read this is \<open>onSubmit_failure_classified\<close>. For a rejection
  with neither \<^verbatim>\<open>httpStatusCode\<close> nor \<^verbatim>\<open>response\<close> the \<^verbatim>\<open>catch\<close> clause itself throws:
  the \<^verbatim>\<open>TypeError\<close> leaves \<^verbatim>\<open>onSubmit\<close>, no toast is shown, no timer is set, and
  \<^verbatim>\<open>isLoading\<close> stays true.
\<close>

theorem onSubmit_rejection_without_status:
  "snd (onSubmit example_env
      \<lparr>confirmModal = ''confirm'', frames = [(0, 1 / 2), (16, 1 / 4)],
       outcome = Rejected (ErrorObject None None)\<rparr> example_state) = Some TypeError \<and>
   emitted (fst (onSubmit example_env
      \<lparr>confirmModal = ''confirm'', frames = [(0, 1 / 2), (16, 1 / 4)],
       outcome = Rejected (ErrorObject None None)\<rparr> example_state)) = [StartedLoading] \<and>
   toasts (fst (onSubmit example_env
      \<lparr>confirmModal = ''confirm'', frames = [(0, 1 / 2), (16, 1 / 4)],
       outcome = Rejected (ErrorObject None None)\<rparr> example_state)) = [] \<and>
   timeouts (fst (onSubmit example_env
      \<lparr>confirmModal = ''confirm'', frames = [(0, 1 / 2), (16, 1 / 4)],
       outcome = Rejected (ErrorObject None None)\<rparr> example_state)) = [] \<and>
   isLoading (fire_timeouts (fst (onSubmit example_env
      \<lparr>confirmModal = ''confirm'', frames = [(0, 1 / 2), (16, 1 / 4)],
       outcome = Rejected (ErrorObject None None)\<rparr> example_state)))"
proof -
  let ?inp = "\<lparr>confirmModal = ''confirm'', frames = [(0, 1 / 2), (16, 1 / 4)],
       outcome = Rejected (ErrorObject None None)\<rparr>"
  have a: "activeNode example_env =
      Some \<lparr>name = ''My Node 1'', mode = Some ''runOnceForAllItems''\<rparr>"
    by (simp add: example_env_def)
  have c: "\<not> (hasChanges example_env \<and> confirmModal ?inp = ''cancel'')"
    by simp
  have o: "outcome ?inp = Rejected (ErrorObject None None)"
    by simp
  have x: "classifyError (baseText example_env) (ErrorObject None None) = Inl TypeError"
    by (simp add: classifyError_def errorStatus_def read_httpStatusCode_def
        read_response_status_def truthy_def)
  have s: "emitted example_state = []" "timeouts example_state = []"
    "toasts example_state = []"
    by (simp_all add: example_state_def initial_state_def)
  from onSubmit_failure_unreadable [OF a c o x, of example_state] show ?thesis
    by (simp add: s fire_timeouts_isLoading)
qed

section \<open>Draft persistence: properties\<close>

lemma getSessionStoragePrompt_active:
  "activeNode e = Some n \<Longrightarrow>
   getSessionStoragePrompt e = ''ask_ai_prompt__'' @ snakeCase e (name n)"
  by (simp add: getSessionStoragePrompt_def)

lemma getSessionStoragePrompt_none:
  "activeNode e = None \<Longrightarrow> getSessionStoragePrompt e = ''ask_ai_prompt__'' @ snakeCase e []"
  by (simp add: getSessionStoragePrompt_def)

lemma prompt_onMounted:
  "prompt (onMounted e store st) =
     (case store (getSessionStoragePrompt e) of None \<Rightarrow> [] | Some v \<Rightarrow> v)"
  by (simp add: onMounted_def useSessionStorage_get_def)

lemma onPromptInput_upd:
  "onPromptInput e v store = store(getSessionStoragePrompt e \<mapsto> v)"
  by (simp add: onPromptInput_def useSessionStorage_set_def)

lemma ascii_snake_examples:
  "ascii_snake ''My Node 1'' = ''my_node_1''"
  "ascii_snake ''My Node 2'' = ''my_node_2''"
  "ascii_snake [] = []"
  by code_simp+

text \<open>
  C8. The slot of a node is keyed by \<^verbatim>\<open>ask_ai_prompt__\<close> followed by the normalised
  name. A text stored by an input event for a node is the prompt restored by a mount
  for a node of the same name. A text stored for a node whose normalised name differs
  neither replaces that text nor changes what a mount restores.
\<close>

theorem draft_round_trip:
  assumes "activeNode e1 = Some n1" and "activeNode e1' = Some n1'"
    and "name n1' = name n1" and "snakeCase e1' = snakeCase e1"
  shows "getSessionStoragePrompt e1 = ''ask_ai_prompt__'' @ snakeCase e1 (name n1) \<and>
         prompt (onMounted e1' (onPromptInput e1 v store) st) = v \<and>
         (activeNode e2 = Some n2 \<and>
          snakeCase e2 (name n2) \<noteq> snakeCase e1 (name n1) \<longrightarrow>
            prompt (onMounted e1' (onPromptInput e2 v2 (onPromptInput e1 v store)) st) = v \<and>
            prompt (onMounted e1' (onPromptInput e2 v2 store) st) =
              prompt (onMounted e1' store st))"
  using assms
  by (auto simp: prompt_onMounted onPromptInput_upd getSessionStoragePrompt_active)

theorem draft_round_trip_witness:
  "getSessionStoragePrompt example_env = ''ask_ai_prompt__my_node_1'' \<and>
   prompt (onMounted example_env
      (onPromptInput example_env ''add two numbers'' Map.empty) initial_state) =
     ''add two numbers'' \<and>
   prompt (onMounted example_env
      (onPromptInput (example_env\<lparr>activeNode := Some \<lparr>name = ''My Node 2'', mode = None\<rparr>\<rparr>)
         ''sort the items''
         (onPromptInput example_env ''add two numbers'' Map.empty)) initial_state) =
     ''add two numbers'' \<and>
   prompt (onMounted example_env
      (onPromptInput (example_env\<lparr>activeNode := Some \<lparr>name = ''My Node 2'', mode = None\<rparr>\<rparr>)
         ''sort the items'' Map.empty) initial_state) = []"
proof -
  let ?n1 = "\<lparr>name = ''My Node 1'', mode = Some ''runOnceForAllItems''\<rparr>"
  let ?n2 = "\<lparr>name = ''My Node 2'', mode = None\<rparr>"
  let ?e2 = "example_env\<lparr>activeNode := Some ?n2\<rparr>"
  have a: "activeNode example_env = Some ?n1"
    by (simp add: example_env_def)
  have s: "snakeCase example_env = ascii_snake" "snakeCase ?e2 = ascii_snake"
    by (simp_all add: example_env_def)
  have d: "activeNode ?e2 = Some ?n2 \<and>
      snakeCase ?e2 (name ?n2) \<noteq> snakeCase example_env (name ?n1)"
    by (simp add: s ascii_snake_examples)
  have e: "prompt (onMounted example_env Map.empty initial_state) = []"
    by (simp add: prompt_onMounted)
  have n: "name ?n1 = ''My Node 1''"
    by simp
  from draft_round_trip [OF a a refl refl, of "''add two numbers''" Map.empty initial_state
      ?e2 ?n2 "''sort the items''"] d e
  show ?thesis unfolding s n ascii_snake_examples by simp
qed

text \<open>
  C10. With no active node the name is the empty string, which \<^verbatim>\<open>snakeCase\<close> leaves
  empty: the key is \<^verbatim>\<open>ask_ai_prompt__\<close>, every input event writes that one slot and
  every mount restores the prompt from it.
\<close>

theorem draft_without_active_node:
  assumes "activeNode e = None" and "snakeCase e [] = []"
  shows "getSessionStoragePrompt e = ''ask_ai_prompt__'' \<and>
         onPromptInput e v store = store(''ask_ai_prompt__'' \<mapsto> v) \<and>
         prompt (onMounted e store st) =
           (case store ''ask_ai_prompt__'' of None \<Rightarrow> [] | Some d \<Rightarrow> d) \<and>
         prompt (onMounted e (onPromptInput e v store) st) = v"
  using assms
  by (simp add: prompt_onMounted onPromptInput_upd getSessionStoragePrompt_none)

theorem draft_without_active_node_witness:
  "getSessionStoragePrompt (example_env\<lparr>activeNode := None\<rparr>) = ''ask_ai_prompt__'' \<and>
   onPromptInput (example_env\<lparr>activeNode := None\<rparr>) ''sum'' Map.empty =
     [''ask_ai_prompt__'' \<mapsto> ''sum''] \<and>
   prompt (onMounted (example_env\<lparr>activeNode := None\<rparr>)
     [''ask_ai_prompt__'' \<mapsto> ''sum''] initial_state) = ''sum''"
proof -
  have "activeNode (example_env\<lparr>activeNode := None\<rparr>) = None"
    and "snakeCase (example_env\<lparr>activeNode := None\<rparr>) [] = []"
    by (simp_all add: example_env_def ascii_snake_examples)
  from draft_without_active_node [OF this] show ?thesis by simp
qed

end
